theory Spec2Isabelle
  imports Main
begin

section \<open>Data model of the poll backend (backend/main.py)\<close>

text \<open>
  Python strings are character lists and Python integers are \<open>int\<close>. A \<open>datetime\<close> is
  an integer number of milliseconds since 1970-01-01T00:00:00 UTC, the resolution at
  which the store keeps it, so that \<open>timedelta(seconds=n)\<close> is \<open>1000 * n\<close>. The values a
  \<open>datetime\<close> can take run from 0001-01-01T00:00:00 to 9999-12-31T23:59:59.999.
\<close>

type_synonym datetime = int

definition datetime_min :: datetime where
  "datetime_min = - 62135596800000"

definition datetime_max :: datetime where
  "datetime_max = 253402300799999"

text \<open>One element of a poll document's \<open>options\<close> array: keys \<open>id\<close>, \<open>text\<close>, \<open>votes\<close>.\<close>

record poll_option =
  opt_id :: string
  opt_text :: string
  opt_votes :: int

text \<open>A document of the \<open>polls\<close> collection; \<open>poll_id\<close> is its \<open>_id\<close>.\<close>

record poll_doc =
  poll_id :: string
  question :: string
  created_at :: datetime
  updated_at :: datetime
  version :: int
  total_votes :: int
  options :: "poll_option list"

text \<open>A document of the \<open>votes\<close> collection (the ledger).\<close>

record vote_doc =
  vote_poll_id :: string
  vote_option_id :: string
  vote_voter_id :: string
  vote_ip_hash :: string
  vote_created_at :: datetime

text \<open>A document of the \<open>vote_attempts\<close> collection.\<close>

record attempt_doc =
  attempt_poll_id :: string
  attempt_ip_hash :: string
  attempted_at :: datetime

text \<open>
  An \<open>asyncio.Event\<close>: its flag, the observers suspended in \<open>wait()\<close> whose future is
  still pending, and the observers whose future \<open>set()\<close> has completed and that have not
  run again yet. Observers are numbered.
\<close>

record event =
  is_set :: bool
  suspended :: "nat list"
  woken :: "nat list"

text \<open>
  The store and the process state: the \<open>polls\<close> collection keyed by its unique \<open>_id\<close>,
  the \<open>votes\<close> and \<open>vote_attempts\<close> collections in insertion order, and the
  module-level dictionary \<open>poll_events\<close>.
\<close>

record state =
  polls :: "string \<rightharpoonup> poll_doc"
  votes :: "vote_doc list"
  vote_attempts :: "attempt_doc list"
  poll_events :: "string \<rightharpoonup> event"

definition init_state :: state where
  "init_state = \<lparr>polls = Map.empty, votes = [], vote_attempts = [], poll_events = Map.empty\<rparr>"

text \<open>
  The module constants read from the environment, and \<open>hashlib.sha256\<close> composed with
  the UTF-8 encoding and \<open>hexdigest\<close>, which is library code and is taken as a parameter.
\<close>

record settings =
  IP_HASH_SALT :: string
  RATE_LIMIT_WINDOW_SECONDS :: int
  RATE_LIMIT_MAX_ATTEMPTS :: int
  sha256_hexdigest :: "string \<Rightarrow> string"

definition default_settings :: "(string \<Rightarrow> string) \<Rightarrow> settings" where
  "default_settings H =
     \<lparr>IP_HASH_SALT = ''change-me-in-production'',
      RATE_LIMIT_WINDOW_SECONDS = 60,
      RATE_LIMIT_MAX_ATTEMPTS = 15,
      sha256_hexdigest = H\<rparr>"

text \<open>
  The outcomes raised as \<open>HTTPException\<close>, and the two exceptions no handler catches
  (answered 500): the duplicate \<open>_id\<close> of an insert into \<open>polls\<close>, and the
  \<open>OverflowError\<close> of date arithmetic.
\<close>

datatype error =
  NotFound | InvalidOption | RateLimited | DuplicateVote | DuplicateKey | OverflowError

fun status_code :: "error \<Rightarrow> nat" where
  "status_code NotFound = 404"
| "status_code InvalidOption = 400"
| "status_code RateLimited = 429"
| "status_code DuplicateVote = 409"
| "status_code DuplicateKey = 500"
| "status_code OverflowError = 500"

section \<open>Client address and fingerprint\<close>

text \<open>
  What \<open>get_client_ip\<close> reads of a request: the value of the \<open>x-forwarded-for\<close> header
  when the header is present, and the host of \<open>request.client\<close> when there is a client.
  Header values are decoded as Latin-1, one \<open>char\<close> per code point.
\<close>

record request =
  x_forwarded_for :: "string option"
  client_host :: "string option"

text \<open>\<open>str.isspace\<close> on the code points below 256.\<close>

definition isspace :: "char \<Rightarrow> bool" where
  "isspace c = ((of_char c :: nat) \<in> {9, 10, 11, 12, 13, 28, 29, 30, 31, 32, 133, 160})"

definition strip :: "string \<Rightarrow> string" where
  "strip s = rev (dropWhile isspace (rev (dropWhile isspace s)))"

text \<open>\<open>s.split(",")[0]\<close>: the text before the first comma, all of \<open>s\<close> when there is none.\<close>

definition split_comma_first :: "string \<Rightarrow> string" where
  "split_comma_first s = takeWhile (\<lambda>c. c \<noteq> CHR '','') s"

definition get_client_ip :: "request \<Rightarrow> string" where
  "get_client_ip r =
     (let forwarded_for = (case x_forwarded_for r of None \<Rightarrow> [] | Some h \<Rightarrow> h);
          first = strip (split_comma_first forwarded_for)
      in if forwarded_for \<noteq> [] \<and> first \<noteq> [] then first
         else (case client_host r of
                 Some host \<Rightarrow> if host \<noteq> [] then host else ''unknown''
               | None \<Rightarrow> ''unknown''))"

definition hash_ip :: "settings \<Rightarrow> string \<Rightarrow> string" where
  "hash_ip cfg ip = sha256_hexdigest cfg (IP_HASH_SALT cfg @ '':'' @ ip)"

section \<open>Change notification\<close>

definition upsert_poll_event :: "string \<Rightarrow> (string \<rightharpoonup> event) \<Rightarrow> (string \<rightharpoonup> event)" where
  "upsert_poll_event pid evs =
     (case evs pid of
        None \<Rightarrow> evs(pid \<mapsto> \<lparr>is_set = False, suspended = [], woken = []\<rparr>)
      | Some e \<Rightarrow> evs)"

text \<open>
  \<open>Event.set\<close>: when the flag is clear, raise it and complete the future of every
  suspended observer; when it is already up, do nothing.
\<close>

definition event_set :: "event \<Rightarrow> event" where
  "event_set e =
     (if is_set e then e
      else e\<lparr>is_set := True, suspended := [], woken := woken e @ suspended e\<rparr>)"




definition notify_poll_change :: "string \<Rightarrow> (string \<rightharpoonup> event) \<Rightarrow> (string \<rightharpoonup> event)" where
  "notify_poll_change pid evs =
     (let evs' = upsert_poll_event pid evs
      in case evs' pid of
           None \<Rightarrow> evs'
         | Some e \<Rightarrow> evs'(pid \<mapsto> event_set e))"





section \<open>Store operations\<close>

text \<open>\<open>db.polls.find_one({"_id": poll_id, "options.id": option_id})\<close>.\<close>

definition find_poll_with_option :: "(string \<rightharpoonup> poll_doc) \<Rightarrow> string \<Rightarrow> string \<Rightarrow> poll_doc option" where
  "find_poll_with_option P pid oid =
     (case P pid of
        None \<Rightarrow> None
      | Some p \<Rightarrow> if oid \<in> set (map opt_id (options p)) then Some p else None)"

text \<open>
  \<open>db.vote_attempts.count_documents\<close> with the poll, the fingerprint and
  \<open>attempted_at >= window_start\<close>.
\<close>

definition count_attempts :: "attempt_doc list \<Rightarrow> string \<Rightarrow> string \<Rightarrow> datetime \<Rightarrow> int" where
  "count_attempts as pid fp ws =
     int (length (filter (\<lambda>a. attempt_poll_id a = pid \<and> attempt_ip_hash a = fp
                                \<and> ws \<le> attempted_at a) as))"

text \<open>The unique index of \<open>votes\<close> on \<open>(poll_id, voter_id)\<close>: is the key taken?\<close>

definition has_vote :: "vote_doc list \<Rightarrow> string \<Rightarrow> string \<Rightarrow> bool" where
  "has_vote vs pid voter =
     (filter (\<lambda>v. vote_poll_id v = pid \<and> vote_voter_id v = voter) vs \<noteq> [])"

text \<open>The positional operator \<open>options.$.votes\<close>: the first array element that matched.\<close>

fun inc_first_match :: "string \<Rightarrow> poll_option list \<Rightarrow> poll_option list" where
  "inc_first_match oid [] = []"
| "inc_first_match oid (x # xs) =
     (if opt_id x = oid then x\<lparr>opt_votes := opt_votes x + 1\<rparr> # xs
      else x # inc_first_match oid xs)"

text \<open>
  The update document of \<open>vote_poll\<close> applied to one poll: \<open>$inc\<close> of the matched
  option's votes, of \<open>version\<close> and of \<open>total_votes\<close>, \<open>$set\<close> of \<open>updated_at\<close>.
\<close>

definition inc_and_set :: "string \<Rightarrow> datetime \<Rightarrow> poll_doc \<Rightarrow> poll_doc" where
  "inc_and_set oid t p =
     p\<lparr>options := inc_first_match oid (options p),
       version := version p + 1,
       total_votes := total_votes p + 1,
       updated_at := t\<rparr>"

text \<open>
  \<open>db.polls.update_one\<close> with the filter on \<open>_id\<close> and \<open>options.id\<close>; the result is
  \<open>matched_count\<close> and the collection.
\<close>

definition update_one_vote ::
    "(string \<rightharpoonup> poll_doc) \<Rightarrow> string \<Rightarrow> string \<Rightarrow> datetime \<Rightarrow> nat \<times> (string \<rightharpoonup> poll_doc)" where
  "update_one_vote P pid oid t =
     (case find_poll_with_option P pid oid of
        None \<Rightarrow> (0, P)
      | Some p \<Rightarrow> (1, P(pid \<mapsto> inc_and_set oid t p)))"

section \<open>Creating a poll\<close>

text \<open>
  The validated payload, the tokens \<open>secrets.token_urlsafe\<close> returns (one for the poll,
  the \<open>i\<close>-th one for option \<open>i\<close>) and the clock reading.
\<close>

record create_call =
  cc_question :: string
  cc_options :: "string list"
  cc_poll_token :: string
  cc_option_token :: "nat \<Rightarrow> string"
  cc_now :: datetime

record create_response =
  cr_poll :: poll_doc
  cr_share_path :: string

definition new_poll_doc :: "create_call \<Rightarrow> poll_doc" where
  "new_poll_doc c =
     \<lparr>poll_id = cc_poll_token c,
      question = cc_question c,
      created_at = cc_now c,
      updated_at = cc_now c,
      version = 1,
      total_votes = 0,
      options = map (\<lambda>(i, text). \<lparr>opt_id = cc_option_token c i, opt_text = text, opt_votes = 0\<rparr>)
                    (enumerate 0 (cc_options c))\<rparr>"

definition create_poll :: "create_call \<Rightarrow> state \<Rightarrow> (error + create_response) \<times> state" where
  "create_poll c s =
     (let pid = cc_poll_token c; poll = new_poll_doc c
      in case polls s pid of
           Some other \<Rightarrow> (Inl DuplicateKey, s)
         | None \<Rightarrow>
             (Inr \<lparr>cr_poll = poll, cr_share_path = ''/?poll='' @ pid\<rparr>,
              s\<lparr>polls := (polls s)(pid \<mapsto> poll),
                poll_events := notify_poll_change pid (poll_events s)\<rparr>))"

section \<open>Voting\<close>

text \<open>
  A call of \<open>vote_poll\<close>: the path parameter, the payload's \<open>option_id\<close>, the request,
  the \<open>voter_id\<close> cookie, and what \<open>uuid.uuid4()\<close> and \<open>now_utc()\<close> return (a
  \<open>datetime\<close>, so between \<open>datetime_min\<close> and \<open>datetime_max\<close>).
\<close>

record vote_call =
  vc_poll_id :: string
  vc_option_id :: string
  vc_request :: request
  vc_voter_id :: "string option"
  vc_uuid4 :: string
  vc_now :: datetime

record vote_response =
  vr_poll :: poll_doc
  vr_cookie :: string

definition current_voter_id :: "vote_call \<Rightarrow> string" where
  "current_voter_id c =
     (case vc_voter_id c of
        None \<Rightarrow> vc_uuid4 c
      | Some v \<Rightarrow> if v \<noteq> [] then v else vc_uuid4 c)"

definition ip_digest :: "settings \<Rightarrow> vote_call \<Rightarrow> string" where
  "ip_digest cfg c = hash_ip cfg (get_client_ip (vc_request c))"

text \<open>
  \<open>timedelta(seconds=n)\<close>, in milliseconds: the constructor raises \<open>OverflowError\<close> when
  the number of whole days exceeds 999999999 in magnitude.
\<close>

definition timedelta_seconds :: "int \<Rightarrow> error + int" where
  "timedelta_seconds n =
     (if - 999999999 \<le> n div 86400 \<and> n div 86400 \<le> 999999999 then Inr (1000 * n)
      else Inl OverflowError)"

text \<open>\<open>datetime - timedelta\<close>: \<open>OverflowError\<close> when the result is not a \<open>datetime\<close>.\<close>

definition datetime_sub :: "datetime \<Rightarrow> int \<Rightarrow> error + datetime" where
  "datetime_sub t d =
     (if datetime_min \<le> t - d \<and> t - d \<le> datetime_max then Inr (t - d)
      else Inl OverflowError)"

text \<open>\<open>window_start = created_at - timedelta(seconds=RATE_LIMIT_WINDOW_SECONDS)\<close>.\<close>

definition window_start :: "settings \<Rightarrow> vote_call \<Rightarrow> error + datetime" where
  "window_start cfg c =
     (case timedelta_seconds (RATE_LIMIT_WINDOW_SECONDS cfg) of
        Inl e \<Rightarrow> Inl e
      | Inr d \<Rightarrow> datetime_sub (vc_now c) d)"

definition new_attempt :: "settings \<Rightarrow> vote_call \<Rightarrow> attempt_doc" where
  "new_attempt cfg c =
     \<lparr>attempt_poll_id = vc_poll_id c, attempt_ip_hash = ip_digest cfg c,
      attempted_at = vc_now c\<rparr>"

definition new_vote :: "settings \<Rightarrow> vote_call \<Rightarrow> vote_doc" where
  "new_vote cfg c =
     \<lparr>vote_poll_id = vc_poll_id c, vote_option_id = vc_option_id c,
      vote_voter_id = current_voter_id c, vote_ip_hash = ip_digest cfg c,
      vote_created_at = vc_now c\<rparr>"

text \<open>
  The first half of \<open>vote_poll\<close>, up to the insert into the ledger: the window start,
  computed before anything is looked up, option validation, the attempt log, the rate
  gate, the uniqueness gate. Every \<open>raise\<close> is an \<open>Inl\<close>, returned with the store as
  the request leaves it.
\<close>

definition vote_poll_admit :: "settings \<Rightarrow> vote_call \<Rightarrow> state \<Rightarrow> (error + unit) \<times> state" where
  "vote_poll_admit cfg c s =
     (case window_start cfg c of
        Inl e \<Rightarrow> (Inl e, s)
      | Inr ws \<Rightarrow>
          (case find_poll_with_option (polls s) (vc_poll_id c) (vc_option_id c) of
             None \<Rightarrow>
               (case polls s (vc_poll_id c) of
                  None \<Rightarrow> (Inl NotFound, s)
                | Some existing \<Rightarrow> (Inl InvalidOption, s))
           | Some poll_match \<Rightarrow>
               (let s1 = s\<lparr>vote_attempts := vote_attempts s @ [new_attempt cfg c]\<rparr>;
                    attempts = count_attempts (vote_attempts s1) (vc_poll_id c)
                                 (ip_digest cfg c) ws
                in if attempts > RATE_LIMIT_MAX_ATTEMPTS cfg then (Inl RateLimited, s1)
                   else if has_vote (votes s1) (vc_poll_id c) (current_voter_id c)
                        then (Inl DuplicateVote, s1)
                        else (Inr (), s1\<lparr>votes := votes s1 @ [new_vote cfg c]\<rparr>))))"

text \<open>
  The second half, from \<open>update_one\<close> on: the aggregate update with its re-check, the
  read of the updated poll, the notification and the response.
\<close>

definition vote_poll_apply :: "vote_call \<Rightarrow> state \<Rightarrow> (error + vote_response) \<times> state" where
  "vote_poll_apply c s =
     (case update_one_vote (polls s) (vc_poll_id c) (vc_option_id c) (vc_now c) of
        (matched_count, P) \<Rightarrow>
          if matched_count = 0 then (Inl InvalidOption, s)
          else
            (let s3 = s\<lparr>polls := P\<rparr>
             in case polls s3 (vc_poll_id c) of
                  None \<Rightarrow> (Inl NotFound, s3)
                | Some updated_poll \<Rightarrow>
                    (Inr \<lparr>vr_poll = updated_poll, vr_cookie = current_voter_id c\<rparr>,
                     s3\<lparr>poll_events := notify_poll_change (vc_poll_id c) (poll_events s3)\<rparr>)))"

definition vote_poll :: "settings \<Rightarrow> vote_call \<Rightarrow> state \<Rightarrow> (error + vote_response) \<times> state" where
  "vote_poll cfg c s =
     (case vote_poll_admit cfg c s of
        (Inl e, s1) \<Rightarrow> (Inl e, s1)
      | (Inr u, s2) \<Rightarrow> vote_poll_apply c s2)"

section \<open>Sequences of requests\<close>

datatype op = CreatePoll create_call | VotePoll vote_call

datatype reply = Created create_response | Voted vote_response | Failed error

definition step :: "settings \<Rightarrow> op \<Rightarrow> state \<Rightarrow> reply \<times> state" where
  "step cfg x s =
     (case x of
        CreatePoll c \<Rightarrow>
          (case create_poll c s of
             (Inl e, s') \<Rightarrow> (Failed e, s')
           | (Inr r, s') \<Rightarrow> (Created r, s'))
      | VotePoll c \<Rightarrow>
          (case vote_poll cfg c s of
             (Inl e, s') \<Rightarrow> (Failed e, s')
           | (Inr r, s') \<Rightarrow> (Voted r, s')))"

fun exec :: "settings \<Rightarrow> op list \<Rightarrow> state \<Rightarrow> reply list \<times> state" where
  "exec cfg [] s = ([], s)"
| "exec cfg (x # xs) s =
     (case step cfg x s of
        (r, s') \<Rightarrow> (case exec cfg xs s' of (rs, s'') \<Rightarrow> (r # rs, s'')))"

section \<open>Notions used in the statements\<close>

text \<open>The state a request leaves once it has passed option validation and logged its attempt.\<close>

definition logged :: "settings \<Rightarrow> vote_call \<Rightarrow> state \<Rightarrow> state" where
  "logged cfg c s = s\<lparr>vote_attempts := vote_attempts s @ [new_attempt cfg c]\<rparr>"

text \<open>The state an accepted vote on poll document \<open>p\<close> leaves.\<close>

definition accepted_state :: "settings \<Rightarrow> vote_call \<Rightarrow> poll_doc \<Rightarrow> state \<Rightarrow> state" where
  "accepted_state cfg c p s =
     s\<lparr>vote_attempts := vote_attempts s @ [new_attempt cfg c],
       votes := votes s @ [new_vote cfg c],
       polls := (polls s)(vc_poll_id c \<mapsto> inc_and_set (vc_option_id c) (vc_now c) p),
       poll_events := notify_poll_change (vc_poll_id c) (poll_events s)\<rparr>"

text \<open>The position of the first option with identifier \<open>oid\<close> (the length when there is none).\<close>

definition first_match :: "string \<Rightarrow> poll_option list \<Rightarrow> nat" where
  "first_match oid opts = length (takeWhile (\<lambda>x. opt_id x \<noteq> oid) opts)"

text \<open>The sum of the vote counters of a poll's options.\<close>

definition votes_sum :: "poll_doc \<Rightarrow> int" where
  "votes_sum p = sum_list (map opt_votes (options p))"

text \<open>Every poll document of the store has \<open>total_votes\<close> equal to the sum of its options' counters.\<close>

definition consistent :: "state \<Rightarrow> bool" where
  "consistent s = (\<forall>pid p. polls s pid = Some p \<longrightarrow> total_votes p = votes_sum p)"

text \<open>The poll snapshot a reply carries, when it carries one.\<close>

fun snapshot :: "reply \<Rightarrow> poll_doc option" where
  "snapshot (Created cr) = Some (cr_poll cr)"
| "snapshot (Voted r) = Some (vr_poll r)"
| "snapshot (Failed e) = None"

text \<open>The version of poll \<open>pid\<close> in a store, and 1 (the version it will be created with) before it exists.\<close>

definition version_of :: "state \<Rightarrow> string \<Rightarrow> int" where
  "version_of s pid = (case polls s pid of None \<Rightarrow> 1 | Some p \<Rightarrow> version p)"

text \<open>The number of accepted votes on poll \<open>pid\<close> in a sequence of requests and its replies.\<close>

fun accepted_votes :: "string \<Rightarrow> op list \<Rightarrow> reply list \<Rightarrow> nat" where
  "accepted_votes pid (VotePoll c # xs) (Voted r # rs) =
     (if vc_poll_id c = pid then 1 else 0) + accepted_votes pid xs rs"
| "accepted_votes pid (x # xs) (r # rs) = accepted_votes pid xs rs"
| "accepted_votes pid xs rs = 0"

text \<open>
  A vote request on poll \<open>pid\<close> from fingerprint \<open>fp\<close> at or after \<open>ws\<close> that was
  turned away neither by the window computation nor by option validation, whatever its
  reply was otherwise.
\<close>

fun past_validation :: "settings \<Rightarrow> string \<Rightarrow> string \<Rightarrow> datetime \<Rightarrow> op \<Rightarrow> reply \<Rightarrow> bool" where
  "past_validation cfg pid fp ws (VotePoll c) r =
     (vc_poll_id c = pid \<and> ip_digest cfg c = fp \<and> ws \<le> vc_now c
      \<and> r \<noteq> Failed OverflowError \<and> r \<noteq> Failed NotFound \<and> r \<noteq> Failed InvalidOption)"
| "past_validation cfg pid fp ws (CreatePoll c) r = False"

fun count_past_validation ::
    "settings \<Rightarrow> string \<Rightarrow> string \<Rightarrow> datetime \<Rightarrow> op list \<Rightarrow> reply list \<Rightarrow> nat" where
  "count_past_validation cfg pid fp ws (x # xs) (r # rs) =
     (if past_validation cfg pid fp ws x r then 1 else 0)
       + count_past_validation cfg pid fp ws xs rs"
| "count_past_validation cfg pid fp ws xs rs = 0"

section \<open>The scenarios of the specification, as data\<close>

text \<open>
  Scenario A: a poll "Pizza or Pasta?" with two options, and a voter who votes for the
  first. The settings are at their defaults; the digest is left as the identity in the
  examples.
\<close>

definition example_settings :: settings where
  "example_settings = default_settings (\<lambda>b. b)"

definition pizza_create :: create_call where
  "pizza_create =
     \<lparr>cc_question = ''Pizza or Pasta?'', cc_options = [''Pizza'', ''Pasta''],
      cc_poll_token = ''p1'', cc_option_token = (\<lambda>i. if i = 0 then ''oA'' else ''oB''),
      cc_now = 0\<rparr>"

definition pizza_state :: state where
  "pizza_state = snd (create_poll pizza_create init_state)"

definition alice_vote :: vote_call where
  "alice_vote =
     \<lparr>vc_poll_id = ''p1'', vc_option_id = ''oA'',
      vc_request = \<lparr>x_forwarded_for = None, client_host = Some ''10.0.0.1''\<rparr>,
      vc_voter_id = Some ''alice'', vc_uuid4 = ''u1'', vc_now = 1000\<rparr>"

definition voted_state :: state where
  "voted_state = snd (vote_poll example_settings alice_vote pizza_state)"


text \<open>Scenario A as a sequence of requests: create, vote, and the same vote again.\<close>

definition scenario_a :: "op list" where
  "scenario_a = [CreatePoll pizza_create, VotePoll alice_vote, VotePoll alice_vote]"

text \<open>Settings with a limit of two attempts per window, and a vote for an option the poll lacks.\<close>

definition strict_settings :: settings where
  "strict_settings = example_settings\<lparr>RATE_LIMIT_MAX_ATTEMPTS := 2\<rparr>"

definition foreign_vote :: vote_call where
  "foreign_vote = alice_vote\<lparr>vc_option_id := ''zz''\<rparr>"




text \<open>
  Settings whose window, some 2200 years, reaches back before the first \<open>datetime\<close>, and
  the same with a limit of no attempt at all.
\<close>

definition long_window_settings :: settings where
  "long_window_settings = example_settings\<lparr>RATE_LIMIT_WINDOW_SECONDS := 70000000000\<rparr>"

definition long_window_no_attempt_settings :: settings where
  "long_window_no_attempt_settings = long_window_settings\<lparr>RATE_LIMIT_MAX_ATTEMPTS := 0\<rparr>"

text \<open>
  Scenario C: sixteen vote requests on the poll of scenario A from one address, by
  sixteen voters without a cookie, 100 ms apart.
\<close>

definition burst_vote :: "nat \<Rightarrow> vote_call" where
  "burst_vote i =
     \<lparr>vc_poll_id = ''p1'', vc_option_id = ''oB'',
      vc_request = \<lparr>x_forwarded_for = Some ''203.0.113.7, 10.0.0.1'', client_host = Some ''10.0.0.1''\<rparr>,
      vc_voter_id = None, vc_uuid4 = replicate (Suc i) (CHR ''v''), vc_now = 1000 + 100 * int i\<rparr>"

definition burst :: "vote_call list" where
  "burst = map burst_vote [0..<16]"

text \<open>
  The same sixteen with the first naming an option the poll lacks, and the sixteen that
  follow the first of a run of seventeen.
\<close>

definition foreign_burst :: "vote_call list" where
  "foreign_burst = (burst_vote 0)\<lparr>vc_option_id := ''zz''\<rparr> # map burst_vote [1..<16]"

definition late_burst :: "vote_call list" where
  "late_burst = map burst_vote [1..<17]"

section \<open>Basic facts\<close>

lemma find_poll_with_option_Some:
  "find_poll_with_option P pid oid = Some p \<longleftrightarrow>
     P pid = Some p \<and> oid \<in> set (map opt_id (options p))"
  by (auto simp: find_poll_with_option_def split: option.splits)

lemma find_poll_with_option_None:
  "find_poll_with_option P pid oid = None \<longleftrightarrow>
     (case P pid of None \<Rightarrow> True | Some p \<Rightarrow> oid \<notin> set (map opt_id (options p)))"
  by (auto simp: find_poll_with_option_def split: option.splits)

text \<open>The window start is the request time less the window, when that is a \<open>datetime\<close>.\<close>

lemma window_start_Inr:
  "window_start cfg c = Inr ws \<Longrightarrow> ws = vc_now c - 1000 * RATE_LIMIT_WINDOW_SECONDS cfg"
  by (auto simp: window_start_def timedelta_seconds_def datetime_sub_def
      split: if_splits sum.splits)

lemma window_start_Inl: "window_start cfg c = Inl e \<Longrightarrow> e = OverflowError"
  by (auto simp: window_start_def timedelta_seconds_def datetime_sub_def
      split: if_splits sum.splits)

lemma window_start_in_range:
  assumes "datetime_min \<le> vc_now c - 1000 * RATE_LIMIT_WINDOW_SECONDS cfg"
    and "vc_now c - 1000 * RATE_LIMIT_WINDOW_SECONDS cfg \<le> datetime_max"
    and "datetime_min \<le> vc_now c" and "vc_now c \<le> datetime_max"
  shows "window_start cfg c = Inr (vc_now c - 1000 * RATE_LIMIT_WINDOW_SECONDS cfg)"
proof -
  from assms have "- 86399999913600 \<le> RATE_LIMIT_WINDOW_SECONDS cfg"
    and "RATE_LIMIT_WINDOW_SECONDS cfg \<le> 86399999913600"
    by (simp_all add: datetime_min_def datetime_max_def)
  then have "- 999999999 \<le> RATE_LIMIT_WINDOW_SECONDS cfg div 86400"
    and "RATE_LIMIT_WINDOW_SECONDS cfg div 86400 \<le> 999999999"
    by linarith+
  with assms(1,2) show ?thesis
    by (simp add: window_start_def timedelta_seconds_def datetime_sub_def)
qed

lemma vote_poll_overflow:
  assumes "window_start cfg c = Inl e"
  shows "vote_poll cfg c s = (Inl OverflowError, s)"
  using assms window_start_Inl [OF assms]
  by (simp add: vote_poll_def vote_poll_admit_def)

lemma vote_poll_rejected_at_validation:
  assumes "window_start cfg c = Inr ws"
    and "find_poll_with_option (polls s) (vc_poll_id c) (vc_option_id c) = None"
  shows "vote_poll cfg c s =
           (case polls s (vc_poll_id c) of
              None \<Rightarrow> (Inl NotFound, s)
            | Some existing \<Rightarrow> (Inl InvalidOption, s))"
  using assms by (simp add: vote_poll_def vote_poll_admit_def split: option.splits)

lemma vote_poll_validated:
  assumes "window_start cfg c = Inr ws"
    and "find_poll_with_option (polls s) (vc_poll_id c) (vc_option_id c) = Some p"
  shows "vote_poll cfg c s =
           (if count_attempts (vote_attempts s @ [new_attempt cfg c]) (vc_poll_id c)
                 (ip_digest cfg c) ws > RATE_LIMIT_MAX_ATTEMPTS cfg
            then (Inl RateLimited, logged cfg c s)
            else if has_vote (votes s) (vc_poll_id c) (current_voter_id c)
                 then (Inl DuplicateVote, logged cfg c s)
                 else (Inr \<lparr>vr_poll = inc_and_set (vc_option_id c) (vc_now c) p,
                            vr_cookie = current_voter_id c\<rparr>,
                       accepted_state cfg c p s))"
  using assms
  by (simp add: vote_poll_def vote_poll_admit_def vote_poll_apply_def update_one_vote_def
      logged_def accepted_state_def Let_def)

lemma exec_pair: "exec cfg xs s = (fst (exec cfg xs s), snd (exec cfg xs s))"
  by simp

subsection \<open>The example states\<close>

lemma pizza_state_polls:
  "polls pizza_state =
     [''p1'' \<mapsto> \<lparr>poll_id = ''p1'', question = ''Pizza or Pasta?'', created_at = 0,
        updated_at = 0, version = 1, total_votes = 0,
        options = [\<lparr>opt_id = ''oA'', opt_text = ''Pizza'', opt_votes = 0\<rparr>,
                   \<lparr>opt_id = ''oB'', opt_text = ''Pasta'', opt_votes = 0\<rparr>]\<rparr>]"
  by (simp add: pizza_state_def create_poll_def pizza_create_def init_state_def
      new_poll_doc_def Let_def)

lemma pizza_state_ledger: "votes pizza_state = [] \<and> vote_attempts pizza_state = []"
  by (simp add: pizza_state_def create_poll_def pizza_create_def init_state_def Let_def)


lemma example_window: "window_start example_settings alice_vote = Inr (- 59000)"
  by code_simp

lemma long_window_overflow: "window_start long_window_settings alice_vote = Inl OverflowError"
  by code_simp

section \<open>Option validation\<close>

text \<open>
  Claim C6, as the code has it. For a vote request whose window start (the request time
  less the configured window) is a \<open>datetime\<close>, option validation tells the two kinds
  of absence apart: on a poll that does not exist the request is answered \<open>NotFound\<close>
  (404), and on a poll that exists but does not have the supplied option it is answered
  \<open>InvalidOption\<close> (400). Neither changes the state, and such a request gets one of
  these two answers exactly when the lookup on poll and option together finds nothing.
  When the window start is not a \<open>datetime\<close>, the request fails with the uncaught
  \<open>OverflowError\<close> (500) before any lookup, whether or not poll and option exist, and
  the state is unchanged.
\<close>

theorem option_validation_outcomes:
  "(\<forall>ws. window_start cfg c = Inr ws \<and> polls s (vc_poll_id c) = None
          \<longrightarrow> vote_poll cfg c s = (Inl NotFound, s))
   \<and> (\<forall>ws p. window_start cfg c = Inr ws \<and> polls s (vc_poll_id c) = Some p
            \<and> vc_option_id c \<notin> set (map opt_id (options p))
          \<longrightarrow> vote_poll cfg c s = (Inl InvalidOption, s))
   \<and> (\<forall>ws. window_start cfg c = Inr ws
          \<longrightarrow> ((fst (vote_poll cfg c s) = Inl NotFound \<or> fst (vote_poll cfg c s) = Inl InvalidOption)
               \<longleftrightarrow> find_poll_with_option (polls s) (vc_poll_id c) (vc_option_id c) = None))
   \<and> (\<forall>e. window_start cfg c = Inl e \<longrightarrow> vote_poll cfg c s = (Inl OverflowError, s))
   \<and> status_code NotFound = 404 \<and> status_code InvalidOption = 400
   \<and> status_code OverflowError = 500"
proof -
  let ?f = "find_poll_with_option (polls s) (vc_poll_id c) (vc_option_id c)"
  have absent: "\<forall>ws. window_start cfg c = Inr ws \<and> polls s (vc_poll_id c) = None
          \<longrightarrow> vote_poll cfg c s = (Inl NotFound, s)"
    by (simp add: vote_poll_rejected_at_validation find_poll_with_option_None)
  have foreign: "\<forall>ws p. window_start cfg c = Inr ws \<and> polls s (vc_poll_id c) = Some p
            \<and> vc_option_id c \<notin> set (map opt_id (options p))
          \<longrightarrow> vote_poll cfg c s = (Inl InvalidOption, s)"
    by (simp add: vote_poll_rejected_at_validation find_poll_with_option_None)
  have iff: "(fst (vote_poll cfg c s) = Inl NotFound \<or> fst (vote_poll cfg c s) = Inl InvalidOption)
        \<longleftrightarrow> ?f = None"
    if ws: "window_start cfg c = Inr ws" for ws
  proof (cases ?f)
    case None
    with ws show ?thesis
      by (simp add: vote_poll_rejected_at_validation split: option.splits)
  next
    case (Some p)
    with ws show ?thesis by (simp add: vote_poll_validated)
  qed
  have overflow: "\<forall>e. window_start cfg c = Inl e \<longrightarrow> vote_poll cfg c s = (Inl OverflowError, s)"
    by (simp add: vote_poll_overflow)
  from absent foreign iff overflow show ?thesis by simp
qed

theorem option_validation_outcomes_witness:
  "window_start example_settings alice_vote = Inr (- 59000)
   \<and> polls pizza_state ''p0'' = None
   \<and> vote_poll example_settings (alice_vote\<lparr>vc_poll_id := ''p0''\<rparr>) pizza_state
       = (Inl NotFound, pizza_state)
   \<and> (\<exists>p. polls pizza_state ''p1'' = Some p \<and> ''zz'' \<notin> set (map opt_id (options p)))
   \<and> vote_poll example_settings (alice_vote\<lparr>vc_option_id := ''zz''\<rparr>) pizza_state
       = (Inl InvalidOption, pizza_state)
   \<and> window_start long_window_settings alice_vote = Inl OverflowError
   \<and> vote_poll long_window_settings alice_vote pizza_state = (Inl OverflowError, pizza_state)"
proof -
  have w1: "window_start example_settings (alice_vote\<lparr>vc_poll_id := ''p0''\<rparr>) = Inr (- 59000)"
    and w2: "window_start example_settings (alice_vote\<lparr>vc_option_id := ''zz''\<rparr>) = Inr (- 59000)"
    by code_simp+
  have absent: "polls pizza_state (vc_poll_id (alice_vote\<lparr>vc_poll_id := ''p0''\<rparr>)) = None"
    by (simp add: pizza_state_polls)
  have foreign: "\<exists>p. polls pizza_state (vc_poll_id (alice_vote\<lparr>vc_option_id := ''zz''\<rparr>)) = Some p
      \<and> vc_option_id (alice_vote\<lparr>vc_option_id := ''zz''\<rparr>) \<notin> set (map opt_id (options p))"
    by (simp add: pizza_state_polls alice_vote_def)
  from w1 absent
    option_validation_outcomes [where s = pizza_state and cfg = example_settings
      and c = "alice_vote\<lparr>vc_poll_id := ''p0''\<rparr>"]
  have first: "vote_poll example_settings (alice_vote\<lparr>vc_poll_id := ''p0''\<rparr>) pizza_state
       = (Inl NotFound, pizza_state)"
    by blast
  from w2 foreign
    option_validation_outcomes [where s = pizza_state and cfg = example_settings
      and c = "alice_vote\<lparr>vc_option_id := ''zz''\<rparr>"]
  have second: "vote_poll example_settings (alice_vote\<lparr>vc_option_id := ''zz''\<rparr>) pizza_state
       = (Inl InvalidOption, pizza_state)"
    by blast
  from long_window_overflow
    option_validation_outcomes [where s = pizza_state and cfg = long_window_settings
      and c = alice_vote]
  have third: "vote_poll long_window_settings alice_vote pizza_state = (Inl OverflowError, pizza_state)"
    by blast
  from example_window long_window_overflow absent foreign first second third show ?thesis
    by (simp add: alice_vote_def)
qed

text \<open>
  Claim C6, as written, fails: with a configured window of 70000000000 seconds the
  window start of a request made in 1970 is not a \<open>datetime\<close>, and a vote request on a
  poll that does not exist, or for an option the poll does not have, is answered with
  the \<open>OverflowError\<close> (500), not \<open>NotFound\<close> or \<open>InvalidOption\<close>.
\<close>

theorem option_validation_preceded_by_window:
  "RATE_LIMIT_WINDOW_SECONDS long_window_settings = 70000000000
   \<and> polls pizza_state ''p0'' = None
   \<and> fst (vote_poll long_window_settings (alice_vote\<lparr>vc_poll_id := ''p0''\<rparr>) pizza_state)
       = Inl OverflowError
   \<and> fst (vote_poll long_window_settings (alice_vote\<lparr>vc_poll_id := ''p0''\<rparr>) pizza_state)
       \<noteq> Inl NotFound
   \<and> find_poll_with_option (polls pizza_state) ''p1'' ''zz'' = None
   \<and> fst (vote_poll long_window_settings (alice_vote\<lparr>vc_option_id := ''zz''\<rparr>) pizza_state)
       = Inl OverflowError
   \<and> fst (vote_poll long_window_settings (alice_vote\<lparr>vc_option_id := ''zz''\<rparr>) pizza_state)
       \<noteq> Inl InvalidOption"
proof -
  have a: "RATE_LIMIT_WINDOW_SECONDS long_window_settings = 70000000000"
    by (simp add: long_window_settings_def)
  have b: "polls pizza_state ''p0'' = None"
    by (simp add: pizza_state_polls)
  have c: "fst (vote_poll long_window_settings (alice_vote\<lparr>vc_poll_id := ''p0''\<rparr>) pizza_state)
       = Inl OverflowError"
    by code_simp
  have d: "find_poll_with_option (polls pizza_state) ''p1'' ''zz'' = None"
    by (simp add: pizza_state_polls find_poll_with_option_def)
  have e: "fst (vote_poll long_window_settings (alice_vote\<lparr>vc_option_id := ''zz''\<rparr>) pizza_state)
       = Inl OverflowError"
    by code_simp
  from a b c d e show ?thesis by simp
qed

section \<open>Fingerprint and address extraction\<close>

lemma strip_Nil [simp]: "strip [] = []"
  by (simp add: strip_def)

lemma split_comma_first_Nil [simp]: "split_comma_first [] = []"
  by (simp add: split_comma_first_def)

text \<open>
  Claim C8. The fingerprint a vote request is recorded under is the digest of the salt,
  a colon and the extracted address, so equal salt and equal address give an equal
  fingerprint. The extracted address is the trimmed first entry of the forwarded-for
  header when that is not empty; otherwise the host of the transport-level peer when
  there is one and it is not empty; otherwise \<open>unknown\<close>.
\<close>

theorem fingerprint_and_client_address:
  "ip_digest cfg c = sha256_hexdigest cfg (IP_HASH_SALT cfg @ '':'' @ get_client_ip (vc_request c))
   \<and> (IP_HASH_SALT cfg = IP_HASH_SALT cfg' \<and> sha256_hexdigest cfg = sha256_hexdigest cfg'
        \<and> get_client_ip (vc_request c) = get_client_ip (vc_request c')
        \<longrightarrow> ip_digest cfg c = ip_digest cfg' c')
   \<and> (\<forall>h. x_forwarded_for r = Some h \<and> strip (split_comma_first h) \<noteq> []
          \<longrightarrow> get_client_ip r = strip (split_comma_first h))
   \<and> (\<forall>host. (x_forwarded_for r = None
               \<or> (\<exists>h. x_forwarded_for r = Some h \<and> strip (split_comma_first h) = []))
              \<and> client_host r = Some host \<and> host \<noteq> []
          \<longrightarrow> get_client_ip r = host)
   \<and> ((x_forwarded_for r = None
          \<or> (\<exists>h. x_forwarded_for r = Some h \<and> strip (split_comma_first h) = []))
        \<and> (client_host r = None \<or> client_host r = Some [])
          \<longrightarrow> get_client_ip r = ''unknown'')"
proof -
  have digest: "ip_digest cfg c
      = sha256_hexdigest cfg (IP_HASH_SALT cfg @ '':'' @ get_client_ip (vc_request c))"
    by (simp add: ip_digest_def hash_ip_def)
  have same: "IP_HASH_SALT cfg = IP_HASH_SALT cfg' \<and> sha256_hexdigest cfg = sha256_hexdigest cfg'
        \<and> get_client_ip (vc_request c) = get_client_ip (vc_request c')
        \<longrightarrow> ip_digest cfg c = ip_digest cfg' c'"
    by (simp add: ip_digest_def hash_ip_def)
  have forwarded: "\<forall>h. x_forwarded_for r = Some h \<and> strip (split_comma_first h) \<noteq> []
          \<longrightarrow> get_client_ip r = strip (split_comma_first h)"
    by (auto simp: get_client_ip_def Let_def)
  have peer: "\<forall>host. (x_forwarded_for r = None
               \<or> (\<exists>h. x_forwarded_for r = Some h \<and> strip (split_comma_first h) = []))
              \<and> client_host r = Some host \<and> host \<noteq> []
          \<longrightarrow> get_client_ip r = host"
    by (auto simp: get_client_ip_def Let_def)
  have sentinel: "(x_forwarded_for r = None
          \<or> (\<exists>h. x_forwarded_for r = Some h \<and> strip (split_comma_first h) = []))
        \<and> (client_host r = None \<or> client_host r = Some [])
          \<longrightarrow> get_client_ip r = ''unknown''"
    by (auto simp: get_client_ip_def Let_def)
  from digest same forwarded peer sentinel show ?thesis by blast
qed

theorem fingerprint_and_client_address_witness:
  "ip_digest example_settings alice_vote = ip_digest example_settings (alice_vote\<lparr>vc_voter_id := None\<rparr>)
   \<and> get_client_ip \<lparr>x_forwarded_for = Some '' 1.2.3.4 , 5.6.7.8'', client_host = Some ''10.0.0.1''\<rparr>
       = ''1.2.3.4''
   \<and> get_client_ip \<lparr>x_forwarded_for = Some '' , 5.6.7.8'', client_host = Some ''10.0.0.1''\<rparr>
       = ''10.0.0.1''
   \<and> get_client_ip \<lparr>x_forwarded_for = None, client_host = Some ''''\<rparr> = ''unknown''"
proof -
  let ?r1 = "\<lparr>x_forwarded_for = Some '' 1.2.3.4 , 5.6.7.8'', client_host = Some ''10.0.0.1''\<rparr>"
  let ?r2 = "\<lparr>x_forwarded_for = Some '' , 5.6.7.8'', client_host = Some ''10.0.0.1''\<rparr>"
  let ?r3 = "\<lparr>x_forwarded_for = None, client_host = Some ''''\<rparr>"
  have e1: "strip (split_comma_first '' 1.2.3.4 , 5.6.7.8'') = ''1.2.3.4''"
    by (simp add: strip_def split_comma_first_def isspace_def)
  have e2: "strip (split_comma_first '' , 5.6.7.8'') = []"
    by (simp add: strip_def split_comma_first_def isspace_def)
  have same: "ip_digest example_settings alice_vote
      = ip_digest example_settings (alice_vote\<lparr>vc_voter_id := None\<rparr>)"
    using fingerprint_and_client_address
      [where cfg = example_settings and cfg' = example_settings and c = alice_vote
         and c' = "alice_vote\<lparr>vc_voter_id := None\<rparr>", THEN conjunct2, THEN conjunct1]
    by simp
  have a1: "get_client_ip ?r1 = ''1.2.3.4''"
    using fingerprint_and_client_address [where r = ?r1] e1 by simp
  have a2: "get_client_ip ?r2 = ''10.0.0.1''"
    using fingerprint_and_client_address [where r = ?r2] e2 by simp
  have a3: "get_client_ip ?r3 = ''unknown''"
    using fingerprint_and_client_address [where r = ?r3] by simp
  from same a1 a2 a3 show ?thesis by simp
qed

section \<open>What an accepted vote changes\<close>

lemma inc_first_match_ids: "map opt_id (inc_first_match oid xs) = map opt_id xs"
  by (induction xs) auto

lemma inc_first_match_texts: "map opt_text (inc_first_match oid xs) = map opt_text xs"
  by (induction xs) auto

lemma inc_first_match_length: "length (inc_first_match oid xs) = length xs"
  by (induction xs) auto

lemma inc_first_match_sum:
  "oid \<in> set (map opt_id xs) \<Longrightarrow>
     sum_list (map opt_votes (inc_first_match oid xs)) = sum_list (map opt_votes xs) + 1"
  by (induction xs) auto

lemma first_match_less:
  "oid \<in> set (map opt_id xs) \<Longrightarrow> first_match oid xs < length xs"
  unfolding first_match_def by (induction xs) auto

lemma first_match_id:
  "oid \<in> set (map opt_id xs) \<Longrightarrow> opt_id (xs ! first_match oid xs) = oid"
  unfolding first_match_def by (induction xs) auto

lemma inc_first_match_at:
  "oid \<in> set (map opt_id xs) \<Longrightarrow>
     opt_votes (inc_first_match oid xs ! first_match oid xs)
       = opt_votes (xs ! first_match oid xs) + 1"
  unfolding first_match_def by (induction xs) auto

lemma inc_first_match_other:
  "i \<noteq> first_match oid xs \<Longrightarrow> inc_first_match oid xs ! i = xs ! i"
  unfolding first_match_def
proof (induction xs arbitrary: i)
  case Nil
  then show ?case by simp
next
  case (Cons x xs)
  then show ?case by (cases i) auto
qed

text \<open>An accepted vote, seen from its reply: the request passed every gate.\<close>

lemma vote_poll_accepted:
  assumes "vote_poll cfg c s = (Inr r, s')"
  obtains p where "find_poll_with_option (polls s) (vc_poll_id c) (vc_option_id c) = Some p"
    and "r = \<lparr>vr_poll = inc_and_set (vc_option_id c) (vc_now c) p, vr_cookie = current_voter_id c\<rparr>"
    and "s' = accepted_state cfg c p s"
    and "\<not> has_vote (votes s) (vc_poll_id c) (current_voter_id c)"
    and "\<exists>ws. window_start cfg c = Inr ws
           \<and> count_attempts (vote_attempts s @ [new_attempt cfg c]) (vc_poll_id c)
                (ip_digest cfg c) ws \<le> RATE_LIMIT_MAX_ATTEMPTS cfg"
proof (cases "window_start cfg c")
  case (Inl e)
  with assms show ?thesis by (simp add: vote_poll_overflow)
next
  case (Inr ws)
  show ?thesis
  proof (cases "find_poll_with_option (polls s) (vc_poll_id c) (vc_option_id c)")
    case None
    with assms Inr show ?thesis
      by (simp add: vote_poll_rejected_at_validation split: option.splits)
  next
    case (Some p)
    with assms Inr that [of p] show ?thesis
      by (simp add: vote_poll_validated split: if_splits)
  qed
qed

text \<open>
  Claim C9. An accepted vote changes, in the poll voted on, the vote counter of the first
  option carrying the chosen identifier (by one), \<open>total_votes\<close> and \<open>version\<close> (by one
  each) and \<open>updated_at\<close>. The poll's identifier, question and creation time, the
  identifiers and texts of all its options, every other option, and every other poll
  are as before.
\<close>

theorem accepted_vote_frame:
  assumes "vote_poll cfg c s = (Inr r, s')"
  shows "\<exists>p p'. polls s (vc_poll_id c) = Some p \<and> polls s' (vc_poll_id c) = Some p'
           \<and> poll_id p' = poll_id p \<and> question p' = question p
           \<and> created_at p' = created_at p
           \<and> map opt_id (options p') = map opt_id (options p)
           \<and> map opt_text (options p') = map opt_text (options p)
           \<and> first_match (vc_option_id c) (options p) < length (options p)
           \<and> opt_id (options p ! first_match (vc_option_id c) (options p)) = vc_option_id c
           \<and> opt_votes (options p' ! first_match (vc_option_id c) (options p))
               = opt_votes (options p ! first_match (vc_option_id c) (options p)) + 1
           \<and> (\<forall>i. i \<noteq> first_match (vc_option_id c) (options p)
                  \<longrightarrow> options p' ! i = options p ! i)
           \<and> total_votes p' = total_votes p + 1 \<and> version p' = version p + 1
           \<and> updated_at p' = vc_now c
           \<and> (\<forall>q. q \<noteq> vc_poll_id c \<longrightarrow> polls s' q = polls s q)"
proof -
  from assms obtain p where
    found: "find_poll_with_option (polls s) (vc_poll_id c) (vc_option_id c) = Some p"
    and s': "s' = accepted_state cfg c p s"
    by (rule vote_poll_accepted)
  let ?oid = "vc_option_id c"
  let ?p' = "inc_and_set ?oid (vc_now c) p"
  from found have p: "polls s (vc_poll_id c) = Some p" and mem: "?oid \<in> set (map opt_id (options p))"
    by (simp_all add: find_poll_with_option_Some)
  from s' have p': "polls s' (vc_poll_id c) = Some ?p'"
    and others: "\<forall>q. q \<noteq> vc_poll_id c \<longrightarrow> polls s' q = polls s q"
    by (simp_all add: accepted_state_def)
  have scalars: "poll_id ?p' = poll_id p \<and> question ?p' = question p
      \<and> created_at ?p' = created_at p \<and> total_votes ?p' = total_votes p + 1
      \<and> version ?p' = version p + 1 \<and> updated_at ?p' = vc_now c"
    by (simp add: inc_and_set_def)
  have opts: "options ?p' = inc_first_match ?oid (options p)"
    by (simp add: inc_and_set_def)
  have ids: "map opt_id (options ?p') = map opt_id (options p)"
    and texts: "map opt_text (options ?p') = map opt_text (options p)"
    by (simp_all add: opts inc_first_match_ids inc_first_match_texts)
  have chosen: "first_match ?oid (options p) < length (options p)"
      "opt_id (options p ! first_match ?oid (options p)) = ?oid"
      "opt_votes (options ?p' ! first_match ?oid (options p))
         = opt_votes (options p ! first_match ?oid (options p)) + 1"
    using mem by (simp_all add: opts first_match_less first_match_id inc_first_match_at)
  have rest: "\<forall>i. i \<noteq> first_match ?oid (options p) \<longrightarrow> options ?p' ! i = options p ! i"
    by (simp add: opts inc_first_match_other)
  from p p' scalars ids texts chosen rest others show ?thesis by blast
qed

lemma alice_vote_accepted:
  "vote_poll example_settings alice_vote pizza_state =
     (Inr \<lparr>vr_poll = \<lparr>poll_id = ''p1'', question = ''Pizza or Pasta?'', created_at = 0,
              updated_at = 1000, version = 2, total_votes = 1,
              options = [\<lparr>opt_id = ''oA'', opt_text = ''Pizza'', opt_votes = 1\<rparr>,
                         \<lparr>opt_id = ''oB'', opt_text = ''Pasta'', opt_votes = 0\<rparr>]\<rparr>,
            vr_cookie = ''alice''\<rparr>,
      voted_state)"
proof -
  have "fst (vote_poll example_settings alice_vote pizza_state) =
     Inr \<lparr>vr_poll = \<lparr>poll_id = ''p1'', question = ''Pizza or Pasta?'', created_at = 0,
              updated_at = 1000, version = 2, total_votes = 1,
              options = [\<lparr>opt_id = ''oA'', opt_text = ''Pizza'', opt_votes = 1\<rparr>,
                         \<lparr>opt_id = ''oB'', opt_text = ''Pasta'', opt_votes = 0\<rparr>]\<rparr>,
            vr_cookie = ''alice''\<rparr>"
    by code_simp
  then show ?thesis
    by (simp add: voted_state_def prod_eq_iff)
qed

lemma voted_state_poll:
  "polls voted_state ''p1'' =
     Some \<lparr>poll_id = ''p1'', question = ''Pizza or Pasta?'', created_at = 0,
              updated_at = 1000, version = 2, total_votes = 1,
              options = [\<lparr>opt_id = ''oA'', opt_text = ''Pizza'', opt_votes = 1\<rparr>,
                         \<lparr>opt_id = ''oB'', opt_text = ''Pasta'', opt_votes = 0\<rparr>]\<rparr>"
  by code_simp

lemma voted_state_votes:
  "votes voted_state =
     [\<lparr>vote_poll_id = ''p1'', vote_option_id = ''oA'', vote_voter_id = ''alice'',
       vote_ip_hash = ''change-me-in-production:10.0.0.1'', vote_created_at = 1000\<rparr>]"
  by code_simp

lemma voted_state_attempts:
  "vote_attempts voted_state =
     [\<lparr>attempt_poll_id = ''p1'', attempt_ip_hash = ''change-me-in-production:10.0.0.1'',
       attempted_at = 1000\<rparr>]"
  by code_simp

theorem accepted_vote_frame_witness:
  "\<exists>r. vote_poll example_settings alice_vote pizza_state = (Inr r, voted_state)
      \<and> (\<exists>p p'. polls pizza_state ''p1'' = Some p \<and> polls voted_state ''p1'' = Some p'
            \<and> question p' = question p \<and> created_at p' = created_at p
            \<and> map opt_id (options p') = map opt_id (options p)
            \<and> map opt_text (options p') = map opt_text (options p)
            \<and> options p' ! 1 = options p ! 1
            \<and> opt_votes (options p' ! 0) = opt_votes (options p ! 0) + 1
            \<and> version p' = version p + 1)"
proof -
  note h = alice_vote_accepted
  have pid: "vc_poll_id alice_vote = ''p1''" and oid: "vc_option_id alice_vote = ''oA''"
    by (simp_all add: alice_vote_def)
  from accepted_vote_frame [OF h] obtain p p' where
    p: "polls pizza_state ''p1'' = Some p" and p': "polls voted_state ''p1'' = Some p'"
    and frame: "question p' = question p" "created_at p' = created_at p"
      "map opt_id (options p') = map opt_id (options p)"
      "map opt_text (options p') = map opt_text (options p)"
      "version p' = version p + 1"
    and chosen: "opt_votes (options p' ! first_match ''oA'' (options p))
               = opt_votes (options p ! first_match ''oA'' (options p)) + 1"
    and rest: "\<forall>i. i \<noteq> first_match ''oA'' (options p) \<longrightarrow> options p' ! i = options p ! i"
    unfolding pid oid by blast
  from p have k: "first_match ''oA'' (options p) = 0"
    by (auto simp: pizza_state_polls first_match_def)
  from chosen rest have "opt_votes (options p' ! 0) = opt_votes (options p ! 0) + 1"
    and "options p' ! 1 = options p ! 1"
    unfolding k by simp_all
  with h p p' frame show ?thesis by blast
qed

section \<open>Duplicate votes\<close>

text \<open>With the voter's vote already in the ledger, every path of \<open>vote_poll\<close> ends in an error.\<close>

lemma vote_poll_recorded_voter:
  assumes "has_vote (votes s) (vc_poll_id c) (current_voter_id c)"
  shows "vote_poll cfg c s =
     (case window_start cfg c of
        Inl e \<Rightarrow> (Inl OverflowError, s)
      | Inr ws \<Rightarrow>
          (case find_poll_with_option (polls s) (vc_poll_id c) (vc_option_id c) of
             None \<Rightarrow>
               (case polls s (vc_poll_id c) of
                  None \<Rightarrow> (Inl NotFound, s)
                | Some existing \<Rightarrow> (Inl InvalidOption, s))
           | Some p \<Rightarrow>
               (if count_attempts (vote_attempts s @ [new_attempt cfg c]) (vc_poll_id c)
                     (ip_digest cfg c) ws > RATE_LIMIT_MAX_ATTEMPTS cfg
                then (Inl RateLimited, logged cfg c s)
                else (Inl DuplicateVote, logged cfg c s))))"
proof (cases "window_start cfg c")
  case (Inl e)
  then show ?thesis by (simp add: vote_poll_overflow)
next
  case (Inr ws)
  show ?thesis
  proof (cases "find_poll_with_option (polls s) (vc_poll_id c) (vc_option_id c)")
    case None
    with Inr show ?thesis by (simp add: vote_poll_rejected_at_validation)
  next
    case (Some p)
    with Inr assms show ?thesis by (simp add: vote_poll_validated)
  qed
qed

lemma vote_poll_recorded_voter_frame:
  assumes "has_vote (votes s) (vc_poll_id c) (current_voter_id c)"
  shows "(\<forall>r. fst (vote_poll cfg c s) \<noteq> Inr r)
       \<and> polls (snd (vote_poll cfg c s)) = polls s
       \<and> votes (snd (vote_poll cfg c s)) = votes s
       \<and> poll_events (snd (vote_poll cfg c s)) = poll_events s"
  unfolding vote_poll_recorded_voter [OF assms]
  by (simp add: logged_def split: option.splits sum.splits)

lemma vote_poll_recorded_voter_outcome:
  assumes "has_vote (votes s) (vc_poll_id c) (current_voter_id c)"
    and "window_start cfg c = Inr ws"
    and "find_poll_with_option (polls s) (vc_poll_id c) (vc_option_id c) \<noteq> None"
  shows "fst (vote_poll cfg c s) =
           (if RATE_LIMIT_MAX_ATTEMPTS cfg
                 < count_attempts (vote_attempts s @ [new_attempt cfg c]) (vc_poll_id c)
                     (ip_digest cfg c) ws
            then Inl RateLimited else Inl DuplicateVote)"
  using assms(2,3) unfolding vote_poll_recorded_voter [OF assms(1)]
  by (auto split: option.splits)

text \<open>
  Claim C1, as the code has it. When the ledger holds a vote of a voter on a poll, a
  further vote request of that voter on that poll is never accepted and leaves the poll
  aggregate, the ledger and the change signals as they are, whatever its outcome. Its
  outcome is \<open>DuplicateVote\<close> (409) when the window start of the request is a
  \<open>datetime\<close>, the request names an option of the poll and it is within the rate
  limit. Otherwise an earlier gate answers, in this order: the uncaught \<open>OverflowError\<close>
  (500) when the window start is not a \<open>datetime\<close>; \<open>NotFound\<close> when the poll does not
  exist and \<open>InvalidOption\<close> when it does not have the option; \<open>RateLimited\<close> when the
  attempts in the window, the request's own included, exceed the maximum.
\<close>

theorem repeated_vote_not_counted:
  assumes "has_vote (votes s) (vc_poll_id c) (current_voter_id c)"
  shows "(\<forall>r. fst (vote_poll cfg c s) \<noteq> Inr r)
       \<and> polls (snd (vote_poll cfg c s)) = polls s
       \<and> votes (snd (vote_poll cfg c s)) = votes s
       \<and> poll_events (snd (vote_poll cfg c s)) = poll_events s
       \<and> (\<forall>e. window_start cfg c = Inl e \<longrightarrow> fst (vote_poll cfg c s) = Inl OverflowError)
       \<and> (\<forall>ws. window_start cfg c = Inr ws \<and> polls s (vc_poll_id c) = None
              \<longrightarrow> fst (vote_poll cfg c s) = Inl NotFound)
       \<and> (\<forall>ws p. window_start cfg c = Inr ws \<and> polls s (vc_poll_id c) = Some p
                \<and> vc_option_id c \<notin> set (map opt_id (options p))
              \<longrightarrow> fst (vote_poll cfg c s) = Inl InvalidOption)
       \<and> (\<forall>ws. window_start cfg c = Inr ws
                \<and> find_poll_with_option (polls s) (vc_poll_id c) (vc_option_id c) \<noteq> None
                \<and> RATE_LIMIT_MAX_ATTEMPTS cfg
                     < count_attempts (vote_attempts s @ [new_attempt cfg c]) (vc_poll_id c)
                         (ip_digest cfg c) ws
              \<longrightarrow> fst (vote_poll cfg c s) = Inl RateLimited)
       \<and> (\<forall>ws. window_start cfg c = Inr ws
                \<and> find_poll_with_option (polls s) (vc_poll_id c) (vc_option_id c) \<noteq> None
                \<and> count_attempts (vote_attempts s @ [new_attempt cfg c]) (vc_poll_id c)
                     (ip_digest cfg c) ws \<le> RATE_LIMIT_MAX_ATTEMPTS cfg
              \<longrightarrow> fst (vote_poll cfg c s) = Inl DuplicateVote)
       \<and> status_code DuplicateVote = 409"
proof -
  note frame = vote_poll_recorded_voter_frame [OF assms, of cfg]
  have overflow: "\<forall>e. window_start cfg c = Inl e \<longrightarrow> fst (vote_poll cfg c s) = Inl OverflowError"
    by (simp add: vote_poll_overflow)
  have absent: "\<forall>ws. window_start cfg c = Inr ws \<and> polls s (vc_poll_id c) = None
              \<longrightarrow> fst (vote_poll cfg c s) = Inl NotFound"
    by (simp add: vote_poll_rejected_at_validation find_poll_with_option_None)
  have foreign: "\<forall>ws p. window_start cfg c = Inr ws \<and> polls s (vc_poll_id c) = Some p
                \<and> vc_option_id c \<notin> set (map opt_id (options p))
              \<longrightarrow> fst (vote_poll cfg c s) = Inl InvalidOption"
    by (simp add: vote_poll_rejected_at_validation find_poll_with_option_None)
  have limited: "\<forall>ws. window_start cfg c = Inr ws
                \<and> find_poll_with_option (polls s) (vc_poll_id c) (vc_option_id c) \<noteq> None
                \<and> RATE_LIMIT_MAX_ATTEMPTS cfg
                     < count_attempts (vote_attempts s @ [new_attempt cfg c]) (vc_poll_id c)
                         (ip_digest cfg c) ws
              \<longrightarrow> fst (vote_poll cfg c s) = Inl RateLimited"
    using vote_poll_recorded_voter_outcome [OF assms, of cfg] by simp
  have duplicate: "\<forall>ws. window_start cfg c = Inr ws
                \<and> find_poll_with_option (polls s) (vc_poll_id c) (vc_option_id c) \<noteq> None
                \<and> count_attempts (vote_attempts s @ [new_attempt cfg c]) (vc_poll_id c)
                     (ip_digest cfg c) ws \<le> RATE_LIMIT_MAX_ATTEMPTS cfg
              \<longrightarrow> fst (vote_poll cfg c s) = Inl DuplicateVote"
    using vote_poll_recorded_voter_outcome [OF assms, of cfg] by simp
  from frame overflow absent foreign limited duplicate show ?thesis by simp
qed

lemma alice_recorded: "has_vote (votes voted_state) (vc_poll_id alice_vote) (current_voter_id alice_vote)"
  by (simp add: voted_state_votes has_vote_def alice_vote_def current_voter_id_def)

theorem repeated_vote_not_counted_witness:
  "has_vote (votes voted_state) (vc_poll_id alice_vote) (current_voter_id alice_vote)
   \<and> window_start example_settings alice_vote = Inr (- 59000)
   \<and> fst (vote_poll example_settings alice_vote voted_state) = Inl DuplicateVote
   \<and> polls (snd (vote_poll example_settings alice_vote voted_state)) = polls voted_state
   \<and> votes (snd (vote_poll example_settings alice_vote voted_state)) = votes voted_state
   \<and> fst (vote_poll (example_settings\<lparr>RATE_LIMIT_MAX_ATTEMPTS := 1\<rparr>) alice_vote voted_state)
       = Inl RateLimited
   \<and> has_vote (votes voted_state) (vc_poll_id foreign_vote) (current_voter_id foreign_vote)
   \<and> fst (vote_poll example_settings foreign_vote voted_state) = Inl InvalidOption
   \<and> has_vote (votes (voted_state\<lparr>polls := Map.empty\<rparr>)) (vc_poll_id alice_vote)
        (current_voter_id alice_vote)
   \<and> fst (vote_poll example_settings alice_vote (voted_state\<lparr>polls := Map.empty\<rparr>)) = Inl NotFound
   \<and> fst (vote_poll long_window_settings alice_vote voted_state) = Inl OverflowError"
proof -
  let ?one = "example_settings\<lparr>RATE_LIMIT_MAX_ATTEMPTS := 1\<rparr>"
  have found: "find_poll_with_option (polls voted_state) (vc_poll_id alice_vote)
      (vc_option_id alice_vote) \<noteq> None"
    by (simp add: find_poll_with_option_def voted_state_poll alice_vote_def)
  have count: "count_attempts (vote_attempts voted_state @ [new_attempt cfg alice_vote])
      (vc_poll_id alice_vote) (ip_digest cfg alice_vote) (- 59000) \<le> 2" for cfg
    by (simp add: voted_state_attempts count_attempts_def new_attempt_def)
  have within: "count_attempts (vote_attempts voted_state @ [new_attempt example_settings alice_vote])
      (vc_poll_id alice_vote) (ip_digest example_settings alice_vote) (- 59000)
        \<le> RATE_LIMIT_MAX_ATTEMPTS example_settings"
    using count [of example_settings] by (simp add: example_settings_def default_settings_def)
  have beyond: "RATE_LIMIT_MAX_ATTEMPTS ?one
      < count_attempts (vote_attempts voted_state @ [new_attempt ?one alice_vote])
          (vc_poll_id alice_vote) (ip_digest ?one alice_vote) (- 59000)"
    by code_simp
  have w1: "window_start ?one alice_vote = Inr (- 59000)"
    and w2: "window_start example_settings foreign_vote = Inr (- 59000)"
    by code_simp+
  note main = repeated_vote_not_counted [OF alice_recorded]
  from main [of example_settings] example_window found within
  have dup: "fst (vote_poll example_settings alice_vote voted_state) = Inl DuplicateVote"
    by blast
  from main [of example_settings]
  have same: "polls (snd (vote_poll example_settings alice_vote voted_state)) = polls voted_state"
    "votes (snd (vote_poll example_settings alice_vote voted_state)) = votes voted_state"
    by blast+
  from main [of ?one] w1 found beyond
  have lim: "fst (vote_poll ?one alice_vote voted_state) = Inl RateLimited"
    by blast
  from main [of long_window_settings] long_window_overflow
  have ovf: "fst (vote_poll long_window_settings alice_vote voted_state) = Inl OverflowError"
    by blast
  have rec2: "has_vote (votes voted_state) (vc_poll_id foreign_vote) (current_voter_id foreign_vote)"
    by (simp add: voted_state_votes has_vote_def foreign_vote_def alice_vote_def
        current_voter_id_def)
  have lacks: "\<exists>p. polls voted_state (vc_poll_id foreign_vote) = Some p
      \<and> vc_option_id foreign_vote \<notin> set (map opt_id (options p))"
    by (simp add: voted_state_poll foreign_vote_def alice_vote_def)
  from repeated_vote_not_counted [OF rec2, of example_settings] w2 lacks
  have inv: "fst (vote_poll example_settings foreign_vote voted_state) = Inl InvalidOption"
    by blast
  have rec3: "has_vote (votes (voted_state\<lparr>polls := Map.empty\<rparr>)) (vc_poll_id alice_vote)
      (current_voter_id alice_vote)"
    using alice_recorded by simp
  have gone: "polls (voted_state\<lparr>polls := Map.empty\<rparr>) (vc_poll_id alice_vote) = None"
    by simp
  from repeated_vote_not_counted [OF rec3, of example_settings] example_window gone
  have nf: "fst (vote_poll example_settings alice_vote (voted_state\<lparr>polls := Map.empty\<rparr>))
      = Inl NotFound"
    by blast
  from alice_recorded example_window dup same lim rec2 inv rec3 nf ovf show ?thesis
    by blast
qed

text \<open>
  Claim C1, as written, fails: with Alice's vote in the ledger, her next request on the
  same poll is answered \<open>InvalidOption\<close> when it names an option the poll does not have,
  \<open>RateLimited\<close> when the limit is one attempt per window, and with the \<open>OverflowError\<close>
  when the configured window is 70000000000 seconds; none of them is \<open>DuplicateVote\<close>.
\<close>

theorem repeated_vote_other_outcomes:
  "has_vote (votes voted_state) ''p1'' ''alice''
   \<and> vc_poll_id (alice_vote\<lparr>vc_option_id := ''zz''\<rparr>) = ''p1''
   \<and> current_voter_id (alice_vote\<lparr>vc_option_id := ''zz''\<rparr>) = ''alice''
   \<and> fst (vote_poll example_settings (alice_vote\<lparr>vc_option_id := ''zz''\<rparr>) voted_state)
       = Inl InvalidOption
   \<and> fst (vote_poll example_settings (alice_vote\<lparr>vc_option_id := ''zz''\<rparr>) voted_state)
       \<noteq> Inl DuplicateVote
   \<and> fst (vote_poll (example_settings\<lparr>RATE_LIMIT_MAX_ATTEMPTS := 1\<rparr>) alice_vote voted_state)
       = Inl RateLimited
   \<and> vc_poll_id alice_vote = ''p1'' \<and> current_voter_id alice_vote = ''alice''
   \<and> fst (vote_poll long_window_settings alice_vote voted_state) = Inl OverflowError"
proof -
  have a: "has_vote (votes voted_state) ''p1'' ''alice''"
    by (simp add: voted_state_votes has_vote_def)
  have b: "fst (vote_poll example_settings (alice_vote\<lparr>vc_option_id := ''zz''\<rparr>) voted_state)
       = Inl InvalidOption"
    by code_simp
  have c: "fst (vote_poll (example_settings\<lparr>RATE_LIMIT_MAX_ATTEMPTS := 1\<rparr>) alice_vote voted_state)
       = Inl RateLimited"
    by code_simp
  have d: "fst (vote_poll long_window_settings alice_vote voted_state) = Inl OverflowError"
    by code_simp
  from a b c d show ?thesis
    by (simp add: alice_vote_def current_voter_id_def)
qed

section \<open>An aggregate update that matches nothing\<close>













section \<open>The change signal\<close>










section \<open>The aggregate invariant\<close>

lemma new_poll_doc_zero:
  "total_votes (new_poll_doc cc) = 0 \<and> version (new_poll_doc cc) = 1
   \<and> (\<forall>x \<in> set (options (new_poll_doc cc)). opt_votes x = 0)"
  by (auto simp: new_poll_doc_def)

lemma sum_list_all_zero: "(\<forall>x \<in> set xs. f x = (0::int)) \<Longrightarrow> sum_list (map f xs) = 0"
  by (induction xs) auto

lemma new_poll_doc_votes_sum: "votes_sum (new_poll_doc cc) = 0"
  unfolding votes_sum_def using new_poll_doc_zero [of cc] by (simp add: sum_list_all_zero)

lemma create_poll_created:
  assumes "create_poll cc s = (Inr cr, s')"
  shows "polls s (cc_poll_token cc) = None \<and> cr_poll cr = new_poll_doc cc
       \<and> polls s' = (polls s)(cc_poll_token cc \<mapsto> new_poll_doc cc)
       \<and> votes s' = votes s \<and> vote_attempts s' = vote_attempts s"
  using assms by (auto simp: create_poll_def Let_def split: option.splits)

lemma create_poll_failed:
  assumes "create_poll cc s = (Inl e, s')"
  shows "s' = s \<and> e = DuplicateKey \<and> polls s (cc_poll_token cc) \<noteq> None"
  using assms by (auto simp: create_poll_def Let_def split: option.splits)

lemma inc_and_set_counts:
  assumes "oid \<in> set (map opt_id (options p))"
  shows "votes_sum (inc_and_set oid t p) = votes_sum p + 1
       \<and> total_votes (inc_and_set oid t p) = total_votes p + 1
       \<and> version (inc_and_set oid t p) = version p + 1"
  using assms by (simp add: votes_sum_def inc_and_set_def inc_first_match_sum)

lemma vote_poll_failed_polls:
  assumes "vote_poll cfg c s = (Inl e, s')"
  shows "polls s' = polls s"
proof (cases "window_start cfg c")
  case (Inl e')
  with assms show ?thesis by (simp add: vote_poll_overflow)
next
  case (Inr ws)
  show ?thesis
  proof (cases "find_poll_with_option (polls s) (vc_poll_id c) (vc_option_id c)")
    case None
    with assms Inr show ?thesis
      by (auto simp: vote_poll_rejected_at_validation split: option.splits)
  next
    case (Some p)
    with assms Inr show ?thesis
      by (auto simp: vote_poll_validated logged_def split: if_splits)
  qed
qed

lemma create_poll_consistent:
  assumes "consistent s" and "create_poll cc s = (res, s')"
  shows "consistent s'"
proof (cases res)
  case (Inl e)
  with assms(2) have "s' = s" by (simp add: create_poll_failed)
  with assms(1) show ?thesis by simp
next
  case (Inr cr)
  with assms(2) have "polls s' = (polls s)(cc_poll_token cc \<mapsto> new_poll_doc cc)"
    by (simp add: create_poll_created)
  with assms(1) show ?thesis
    by (simp add: consistent_def new_poll_doc_votes_sum new_poll_doc_zero)
qed

lemma vote_poll_consistent:
  assumes "consistent s" and "vote_poll cfg c s = (res, s')"
  shows "consistent s'"
proof (cases res)
  case (Inl e)
  with assms(2) have "polls s' = polls s" by (simp add: vote_poll_failed_polls)
  with assms(1) show ?thesis by (simp add: consistent_def)
next
  case (Inr r)
  with assms(2) obtain p where
    found: "find_poll_with_option (polls s) (vc_poll_id c) (vc_option_id c) = Some p"
    and s': "s' = accepted_state cfg c p s"
    by (auto elim: vote_poll_accepted)
  from found have p: "polls s (vc_poll_id c) = Some p"
    and mem: "vc_option_id c \<in> set (map opt_id (options p))"
    by (simp_all add: find_poll_with_option_Some)
  from assms(1) p have "total_votes p = votes_sum p"
    by (simp add: consistent_def)
  with inc_and_set_counts [OF mem, of "vc_now c"]
  have "total_votes (inc_and_set (vc_option_id c) (vc_now c) p)
      = votes_sum (inc_and_set (vc_option_id c) (vc_now c) p)"
    by simp
  with assms(1) show ?thesis
    by (simp add: consistent_def s' accepted_state_def)
qed

lemma step_consistent:
  assumes "consistent s" and "step cfg x s = (r, s')"
  shows "consistent s'"
proof (cases x)
  case (CreatePoll cc)
  with assms show ?thesis
    by (auto simp: step_def split: prod.splits sum.splits dest: create_poll_consistent)
next
  case (VotePoll c)
  with assms show ?thesis
    by (auto simp: step_def split: prod.splits sum.splits dest: vote_poll_consistent)
qed

lemma step_snapshot:
  assumes "step cfg x s = (r, s')" and "snapshot r = Some p"
  shows "\<exists>pid. polls s' pid = Some p"
proof (cases x)
  case (CreatePoll cc)
  with assms show ?thesis
    by (auto simp: step_def split: prod.splits sum.splits dest!: create_poll_created)
next
  case (VotePoll c)
  with assms show ?thesis
    by (auto simp: step_def accepted_state_def split: prod.splits sum.splits
        elim!: vote_poll_accepted)
qed

lemma exec_consistent:
  assumes "consistent s" and "exec cfg xs s = (rs, s')"
  shows "consistent s' \<and> (\<forall>r \<in> set rs. \<forall>p. snapshot r = Some p \<longrightarrow> total_votes p = votes_sum p)"
  using assms
proof (induction xs arbitrary: s rs)
  case Nil
  then show ?case by simp
next
  case (Cons x xs)
  obtain r s1 where st: "step cfg x s = (r, s1)" by (cases "step cfg x s")
  obtain rs1 s2 where ex: "exec cfg xs s1 = (rs1, s2)" by (cases "exec cfg xs s1")
  from Cons.prems(2) st ex have eq: "rs = r # rs1" and s2: "s2 = s'" by simp_all
  note ex = ex [unfolded s2]
  from Cons.prems(1) st have c1: "consistent s1" by (rule step_consistent)
  from Cons.IH [OF c1 ex] have tail: "consistent s'"
    "\<forall>r \<in> set rs1. \<forall>p. snapshot r = Some p \<longrightarrow> total_votes p = votes_sum p"
    by simp_all
  have head: "\<forall>p. snapshot r = Some p \<longrightarrow> total_votes p = votes_sum p"
    using step_snapshot [OF st] c1 by (auto simp: consistent_def)
  from tail head show ?case by (simp add: eq)
qed

lemma init_state_consistent: "consistent init_state"
  by (simp add: consistent_def init_state_def)

section \<open>Scenario A, run\<close>

lemma scenario_a_replies:
  "fst (exec example_settings scenario_a init_state) =
     [Created \<lparr>cr_poll = \<lparr>poll_id = ''p1'', question = ''Pizza or Pasta?'', created_at = 0,
                 updated_at = 0, version = 1, total_votes = 0,
                 options = [\<lparr>opt_id = ''oA'', opt_text = ''Pizza'', opt_votes = 0\<rparr>,
                            \<lparr>opt_id = ''oB'', opt_text = ''Pasta'', opt_votes = 0\<rparr>]\<rparr>,
               cr_share_path = ''/?poll=p1''\<rparr>,
      Voted \<lparr>vr_poll = \<lparr>poll_id = ''p1'', question = ''Pizza or Pasta?'', created_at = 0,
                 updated_at = 1000, version = 2, total_votes = 1,
                 options = [\<lparr>opt_id = ''oA'', opt_text = ''Pizza'', opt_votes = 1\<rparr>,
                            \<lparr>opt_id = ''oB'', opt_text = ''Pasta'', opt_votes = 0\<rparr>]\<rparr>,
             vr_cookie = ''alice''\<rparr>,
      Failed DuplicateVote]"
  by code_simp

lemma scenario_a_poll:
  "polls (snd (exec example_settings scenario_a init_state)) ''p1'' =
     Some \<lparr>poll_id = ''p1'', question = ''Pizza or Pasta?'', created_at = 0,
            updated_at = 1000, version = 2, total_votes = 1,
            options = [\<lparr>opt_id = ''oA'', opt_text = ''Pizza'', opt_votes = 1\<rparr>,
                       \<lparr>opt_id = ''oB'', opt_text = ''Pasta'', opt_votes = 0\<rparr>]\<rparr>"
  by code_simp

lemma pizza_created:
  "create_poll pizza_create init_state =
     (Inr \<lparr>cr_poll = \<lparr>poll_id = ''p1'', question = ''Pizza or Pasta?'', created_at = 0,
                 updated_at = 0, version = 1, total_votes = 0,
                 options = [\<lparr>opt_id = ''oA'', opt_text = ''Pizza'', opt_votes = 0\<rparr>,
                            \<lparr>opt_id = ''oB'', opt_text = ''Pasta'', opt_votes = 0\<rparr>]\<rparr>,
            cr_share_path = ''/?poll=p1''\<rparr>,
      pizza_state)"
proof -
  have "fst (create_poll pizza_create init_state) =
     Inr \<lparr>cr_poll = \<lparr>poll_id = ''p1'', question = ''Pizza or Pasta?'', created_at = 0,
                 updated_at = 0, version = 1, total_votes = 0,
                 options = [\<lparr>opt_id = ''oA'', opt_text = ''Pizza'', opt_votes = 0\<rparr>,
                            \<lparr>opt_id = ''oB'', opt_text = ''Pasta'', opt_votes = 0\<rparr>]\<rparr>,
            cr_share_path = ''/?poll=p1''\<rparr>"
    by code_simp
  then show ?thesis by (simp add: pizza_state_def prod_eq_iff)
qed

section \<open>Total votes and the sum of the counters\<close>

text \<open>
  Claim C2. In every state reached from the empty store by any sequence of poll
  creations and vote requests, each poll's \<open>total_votes\<close> equals the sum of the vote
  counters of its options, and so does every poll snapshot returned on the way. A
  created poll has \<open>total_votes\<close> 0 and every counter 0; an accepted vote raises the
  counter of the chosen option, the sum and \<open>total_votes\<close> by exactly 1 in one update of
  the stored document.
\<close>

theorem total_votes_is_sum_of_option_votes:
  "(exec cfg xs init_state = (rs, s) \<and> polls s pid = Some p
      \<longrightarrow> total_votes p = sum_list (map opt_votes (options p)))
   \<and> (exec cfg xs init_state = (rs, s) \<and> r \<in> set rs \<and> snapshot r = Some p
      \<longrightarrow> total_votes p = sum_list (map opt_votes (options p)))
   \<and> (create_poll cc s0 = (Inr cr, s1)
      \<longrightarrow> polls s1 (cc_poll_token cc) = Some (cr_poll cr) \<and> total_votes (cr_poll cr) = 0
          \<and> (\<forall>x \<in> set (options (cr_poll cr)). opt_votes x = 0))
   \<and> (vote_poll cfg c s0 = (Inr vr, s1)
      \<longrightarrow> (\<exists>p0. polls s0 (vc_poll_id c) = Some p0 \<and> polls s1 (vc_poll_id c) = Some (vr_poll vr)
            \<and> total_votes (vr_poll vr) = total_votes p0 + 1
            \<and> sum_list (map opt_votes (options (vr_poll vr)))
                = sum_list (map opt_votes (options p0)) + 1
            \<and> opt_votes (options (vr_poll vr) ! first_match (vc_option_id c) (options p0))
                = opt_votes (options p0 ! first_match (vc_option_id c) (options p0)) + 1))"
proof -
  have reached: "exec cfg xs init_state = (rs, s) \<and> polls s pid = Some p
      \<longrightarrow> total_votes p = sum_list (map opt_votes (options p))"
    using exec_consistent [OF init_state_consistent, of cfg xs rs s]
    by (auto simp: consistent_def votes_sum_def)
  have returned: "exec cfg xs init_state = (rs, s) \<and> r \<in> set rs \<and> snapshot r = Some p
      \<longrightarrow> total_votes p = sum_list (map opt_votes (options p))"
    using exec_consistent [OF init_state_consistent, of cfg xs rs s]
    by (auto simp: votes_sum_def)
  have created: "create_poll cc s0 = (Inr cr, s1)
      \<longrightarrow> polls s1 (cc_poll_token cc) = Some (cr_poll cr) \<and> total_votes (cr_poll cr) = 0
          \<and> (\<forall>x \<in> set (options (cr_poll cr)). opt_votes x = 0)"
    using new_poll_doc_zero [of cc] by (auto dest!: create_poll_created)
  have voted: "\<exists>p0. polls s0 (vc_poll_id c) = Some p0 \<and> polls s1 (vc_poll_id c) = Some (vr_poll vr)
            \<and> total_votes (vr_poll vr) = total_votes p0 + 1
            \<and> sum_list (map opt_votes (options (vr_poll vr)))
                = sum_list (map opt_votes (options p0)) + 1
            \<and> opt_votes (options (vr_poll vr) ! first_match (vc_option_id c) (options p0))
                = opt_votes (options p0 ! first_match (vc_option_id c) (options p0)) + 1"
    if acc: "vote_poll cfg c s0 = (Inr vr, s1)"
  proof -
    from acc obtain p0 where
      found: "find_poll_with_option (polls s0) (vc_poll_id c) (vc_option_id c) = Some p0"
      and vr: "vr = \<lparr>vr_poll = inc_and_set (vc_option_id c) (vc_now c) p0,
                     vr_cookie = current_voter_id c\<rparr>"
      and s1: "s1 = accepted_state cfg c p0 s0"
      by (rule vote_poll_accepted)
    from found have p0: "polls s0 (vc_poll_id c) = Some p0"
      and mem: "vc_option_id c \<in> set (map opt_id (options p0))"
      by (simp_all add: find_poll_with_option_Some)
    have stored: "polls s1 (vc_poll_id c) = Some (vr_poll vr)"
      by (simp add: s1 vr accepted_state_def)
    have counts: "total_votes (vr_poll vr) = total_votes p0 + 1"
      "sum_list (map opt_votes (options (vr_poll vr))) = sum_list (map opt_votes (options p0)) + 1"
      using inc_and_set_counts [OF mem, of "vc_now c"] by (simp_all add: vr votes_sum_def)
    have chosen: "opt_votes (options (vr_poll vr) ! first_match (vc_option_id c) (options p0))
                = opt_votes (options p0 ! first_match (vc_option_id c) (options p0)) + 1"
      using mem by (simp add: vr inc_and_set_def inc_first_match_at)
    from p0 stored counts chosen show ?thesis by blast
  qed
  from reached returned created voted show ?thesis by blast
qed

theorem total_votes_is_sum_of_option_votes_witness:
  "(\<exists>rs s p. exec example_settings scenario_a init_state = (rs, s) \<and> polls s ''p1'' = Some p
       \<and> total_votes p = 1 \<and> sum_list (map opt_votes (options p)) = 1
       \<and> (\<forall>r \<in> set rs. \<forall>q. snapshot r = Some q
             \<longrightarrow> total_votes q = sum_list (map opt_votes (options q))))
   \<and> (\<exists>cr. create_poll pizza_create init_state = (Inr cr, pizza_state)
         \<and> polls pizza_state ''p1'' = Some (cr_poll cr) \<and> total_votes (cr_poll cr) = 0)
   \<and> (\<exists>vr. vote_poll example_settings alice_vote pizza_state = (Inr vr, voted_state)
         \<and> polls voted_state ''p1'' = Some (vr_poll vr) \<and> total_votes (vr_poll vr) = 1)"
proof -
  let ?rs = "fst (exec example_settings scenario_a init_state)"
  let ?s = "snd (exec example_settings scenario_a init_state)"
  note run = exec_pair [of example_settings scenario_a init_state]
  note poll = scenario_a_poll
  from total_votes_is_sum_of_option_votes
    [where cfg = example_settings and xs = scenario_a and rs = ?rs and s = ?s
       and pid = "''p1''"] run poll
  have sum: "total_votes (the (polls ?s ''p1'')) = sum_list (map opt_votes (options (the (polls ?s ''p1''))))"
    by simp
  have snaps: "\<forall>r \<in> set ?rs. \<forall>q. snapshot r = Some q
             \<longrightarrow> total_votes q = sum_list (map opt_votes (options q))"
    using total_votes_is_sum_of_option_votes
      [where cfg = example_settings and xs = scenario_a and rs = ?rs and s = ?s] run
    by blast
  have first: "\<exists>rs s p. exec example_settings scenario_a init_state = (rs, s) \<and> polls s ''p1'' = Some p
       \<and> total_votes p = 1 \<and> sum_list (map opt_votes (options p)) = 1
       \<and> (\<forall>r \<in> set rs. \<forall>q. snapshot r = Some q
             \<longrightarrow> total_votes q = sum_list (map opt_votes (options q)))"
    using run poll sum snaps by (intro exI [of _ ?rs] exI [of _ ?s]) simp
  from total_votes_is_sum_of_option_votes
    [where cc = pizza_create and ?s0.0 = init_state and ?s1.0 = pizza_state] pizza_created
  have second: "\<exists>cr. create_poll pizza_create init_state = (Inr cr, pizza_state)
         \<and> polls pizza_state ''p1'' = Some (cr_poll cr) \<and> total_votes (cr_poll cr) = 0"
    by (simp add: pizza_create_def)
  from total_votes_is_sum_of_option_votes
    [where cfg = example_settings and c = alice_vote and ?s0.0 = pizza_state
       and ?s1.0 = voted_state] alice_vote_accepted
  have third: "\<exists>vr. vote_poll example_settings alice_vote pizza_state = (Inr vr, voted_state)
         \<and> polls voted_state ''p1'' = Some (vr_poll vr) \<and> total_votes (vr_poll vr) = 1"
    by (simp add: alice_vote_def pizza_state_polls)
  from first second third show ?thesis by blast
qed

section \<open>The version counter\<close>

lemma version_of_polls: "polls s' = polls s \<Longrightarrow> version_of s' pid = version_of s pid"
  by (simp add: version_of_def)

lemma create_poll_version_of:
  assumes "create_poll cc s = (res, s')"
  shows "version_of s' pid = version_of s pid \<and> (polls s pid \<noteq> None \<longrightarrow> polls s' pid \<noteq> None)"
proof (cases res)
  case (Inl e)
  with assms have "s' = s" by (simp add: create_poll_failed)
  then show ?thesis by simp
next
  case (Inr cr)
  with assms have "polls s (cc_poll_token cc) = None"
    and "polls s' = (polls s)(cc_poll_token cc \<mapsto> new_poll_doc cc)"
    by (simp_all add: create_poll_created)
  then show ?thesis
    using new_poll_doc_zero [of cc] by (auto simp: version_of_def)
qed

lemma vote_poll_version_of:
  assumes "vote_poll cfg c s = (res, s')"
  shows "version_of s' pid
           = version_of s pid + (case res of Inl e \<Rightarrow> 0 | Inr r \<Rightarrow> if vc_poll_id c = pid then 1 else 0)
         \<and> (polls s pid \<noteq> None \<longrightarrow> polls s' pid \<noteq> None)"
proof (cases res)
  case (Inl e)
  with assms have "polls s' = polls s" by (simp add: vote_poll_failed_polls)
  with Inl show ?thesis by (simp add: version_of_def)
next
  case (Inr r)
  with assms obtain p where
    found: "find_poll_with_option (polls s) (vc_poll_id c) (vc_option_id c) = Some p"
    and s': "s' = accepted_state cfg c p s"
    by (auto elim: vote_poll_accepted)
  from found have p: "polls s (vc_poll_id c) = Some p"
    and mem: "vc_option_id c \<in> set (map opt_id (options p))"
    by (simp_all add: find_poll_with_option_Some)
  from p inc_and_set_counts [OF mem, of "vc_now c"] Inr show ?thesis
    by (auto simp: version_of_def s' accepted_state_def)
qed

lemma step_version_of:
  assumes "step cfg x s = (r, s')"
  shows "version_of s' pid = version_of s pid + int (accepted_votes pid [x] [r])
         \<and> (polls s pid \<noteq> None \<longrightarrow> polls s' pid \<noteq> None)"
proof (cases x)
  case (CreatePoll cc)
  obtain res s1 where cp: "create_poll cc s = (res, s1)" by (cases "create_poll cc s")
  with assms CreatePoll have "s1 = s'" by (auto simp: step_def split: sum.splits)
  with create_poll_version_of [OF cp, of pid] CreatePoll show ?thesis by (cases r) simp_all
next
  case (VotePoll c)
  obtain res s1 where vp: "vote_poll cfg c s = (res, s1)" by (cases "vote_poll cfg c s")
  with assms VotePoll have "s1 = s'"
    and "r = (case res of Inl e \<Rightarrow> Failed e | Inr vr \<Rightarrow> Voted vr)"
    by (auto simp: step_def split: sum.splits)
  with vote_poll_version_of [OF vp, of pid] VotePoll show ?thesis
    by (cases res) simp_all
qed

lemma exec_version_of:
  assumes "exec cfg xs s = (rs, s')"
  shows "version_of s' pid = version_of s pid + int (accepted_votes pid xs rs)
         \<and> (polls s pid \<noteq> None \<longrightarrow> polls s' pid \<noteq> None)"
  using assms
proof (induction xs arbitrary: s rs)
  case Nil
  then show ?case by simp
next
  case (Cons x xs)
  obtain r s1 where st: "step cfg x s = (r, s1)" by (cases "step cfg x s")
  obtain rs1 s2 where ex: "exec cfg xs s1 = (rs1, s2)" by (cases "exec cfg xs s1")
  from Cons.prems st ex have eq: "rs = r # rs1" and s2: "s2 = s'" by simp_all
  note ex = ex [unfolded s2]
  have split: "accepted_votes pid (x # xs) (r # rs1)
      = accepted_votes pid [x] [r] + accepted_votes pid xs rs1"
    by (cases x; cases r) simp_all
  from step_version_of [OF st, of pid] Cons.IH [OF ex] show ?case
    by (simp add: eq split)
qed

text \<open>
  Claim C5. A created poll has version 1, \<open>total_votes\<close> 0 and every counter 0. An
  accepted vote raises the version of its poll by exactly 1, and a rejected request
  changes no poll document. So over any sequence of requests the version of a poll
  grows by the number of votes accepted on it in that sequence (it never decreases and
  takes a new value with each accepted vote), and in a state reached from the empty
  store it is 1 plus the number of accepted votes on the poll.
\<close>

theorem version_counts_accepted_votes:
  "(create_poll cc s0 = (Inr cr, s1)
      \<longrightarrow> polls s1 (cc_poll_token cc) = Some (cr_poll cr) \<and> version (cr_poll cr) = 1
          \<and> total_votes (cr_poll cr) = 0 \<and> (\<forall>x \<in> set (options (cr_poll cr)). opt_votes x = 0))
   \<and> (vote_poll cfg c s0 = (Inr vr, s1)
      \<longrightarrow> (\<exists>p0. polls s0 (vc_poll_id c) = Some p0 \<and> polls s1 (vc_poll_id c) = Some (vr_poll vr)
            \<and> version (vr_poll vr) = version p0 + 1))
   \<and> (vote_poll cfg c s0 = (Inl e, s1) \<longrightarrow> polls s1 = polls s0)
   \<and> (create_poll cc s0 = (Inl e, s1) \<longrightarrow> polls s1 = polls s0)
   \<and> (exec cfg xs s0 = (rs, s1) \<and> polls s0 pid = Some p0
      \<longrightarrow> (\<exists>p1. polls s1 pid = Some p1
            \<and> version p1 = version p0 + int (accepted_votes pid xs rs)))
   \<and> (exec cfg xs init_state = (rs, s) \<and> polls s pid = Some p
      \<longrightarrow> version p = 1 + int (accepted_votes pid xs rs))"
proof -
  have created: "create_poll cc s0 = (Inr cr, s1)
      \<longrightarrow> polls s1 (cc_poll_token cc) = Some (cr_poll cr) \<and> version (cr_poll cr) = 1
          \<and> total_votes (cr_poll cr) = 0 \<and> (\<forall>x \<in> set (options (cr_poll cr)). opt_votes x = 0)"
    using new_poll_doc_zero [of cc] by (auto dest!: create_poll_created)
  have accepted: "\<exists>p0. polls s0 (vc_poll_id c) = Some p0 \<and> polls s1 (vc_poll_id c) = Some (vr_poll vr)
            \<and> version (vr_poll vr) = version p0 + 1"
    if acc: "vote_poll cfg c s0 = (Inr vr, s1)"
  proof -
    from acc obtain p0 where
      found: "find_poll_with_option (polls s0) (vc_poll_id c) (vc_option_id c) = Some p0"
      and vr: "vr = \<lparr>vr_poll = inc_and_set (vc_option_id c) (vc_now c) p0,
                     vr_cookie = current_voter_id c\<rparr>"
      and s1: "s1 = accepted_state cfg c p0 s0"
      by (rule vote_poll_accepted)
    from found have p0: "polls s0 (vc_poll_id c) = Some p0"
      by (simp add: find_poll_with_option_Some)
    have "polls s1 (vc_poll_id c) = Some (vr_poll vr)"
      by (simp add: s1 vr accepted_state_def)
    moreover have "version (vr_poll vr) = version p0 + 1"
      by (simp add: vr inc_and_set_def)
    ultimately show ?thesis using p0 by blast
  qed
  have rejected: "vote_poll cfg c s0 = (Inl e, s1) \<longrightarrow> polls s1 = polls s0"
    by (auto dest: vote_poll_failed_polls)
  have not_created: "create_poll cc s0 = (Inl e, s1) \<longrightarrow> polls s1 = polls s0"
    by (auto dest: create_poll_failed)
  have grows: "\<exists>p1. polls s1 pid = Some p1
            \<and> version p1 = version p0 + int (accepted_votes pid xs rs)"
    if run: "exec cfg xs s0 = (rs, s1)" and p0: "polls s0 pid = Some p0"
  proof -
    from exec_version_of [OF run, of pid] p0 obtain p1 where p1: "polls s1 pid = Some p1"
      by auto
    with exec_version_of [OF run, of pid] p0 show ?thesis
      by (simp add: version_of_def)
  qed
  have from_empty: "exec cfg xs init_state = (rs, s) \<and> polls s pid = Some p
      \<longrightarrow> version p = 1 + int (accepted_votes pid xs rs)"
  proof (intro impI, elim conjE)
    assume run: "exec cfg xs init_state = (rs, s)" and p: "polls s pid = Some p"
    from exec_version_of [OF run, of pid] p show "version p = 1 + int (accepted_votes pid xs rs)"
      by (simp add: version_of_def init_state_def)
  qed
  from created accepted rejected not_created grows from_empty show ?thesis by blast
qed

theorem version_counts_accepted_votes_witness:
  "(\<exists>rs s p. exec example_settings scenario_a init_state = (rs, s) \<and> polls s ''p1'' = Some p
       \<and> accepted_votes ''p1'' scenario_a rs = 1 \<and> version p = 2)
   \<and> (\<exists>cr. create_poll pizza_create init_state = (Inr cr, pizza_state) \<and> version (cr_poll cr) = 1)
   \<and> (\<exists>vr. vote_poll example_settings alice_vote pizza_state = (Inr vr, voted_state)
         \<and> version (vr_poll vr) = 2)
   \<and> (\<exists>s1. vote_poll example_settings alice_vote voted_state = (Inl DuplicateVote, s1)
         \<and> polls s1 = polls voted_state)
   \<and> (\<exists>rs s1 p0 p1. exec example_settings [VotePoll alice_vote, VotePoll alice_vote] pizza_state = (rs, s1)
         \<and> polls pizza_state ''p1'' = Some p0 \<and> polls s1 ''p1'' = Some p1
         \<and> version p1 = version p0 + 1)"
proof -
  let ?rs = "fst (exec example_settings scenario_a init_state)"
  let ?s = "snd (exec example_settings scenario_a init_state)"
  note run = exec_pair [of example_settings scenario_a init_state]
  have n: "accepted_votes ''p1'' scenario_a ?rs = 1"
    by (simp add: scenario_a_replies) (simp add: scenario_a_def alice_vote_def)
  from version_counts_accepted_votes
    [where cfg = example_settings and xs = scenario_a and rs = ?rs and s = ?s
       and pid = "''p1''"] run scenario_a_poll n
  have first: "\<exists>rs s p. exec example_settings scenario_a init_state = (rs, s) \<and> polls s ''p1'' = Some p
       \<and> accepted_votes ''p1'' scenario_a rs = 1 \<and> version p = 2"
    by (intro exI [of _ ?rs] exI [of _ ?s]) simp
  from version_counts_accepted_votes
    [where cc = pizza_create and ?s0.0 = init_state and ?s1.0 = pizza_state] pizza_created
  have second: "\<exists>cr. create_poll pizza_create init_state = (Inr cr, pizza_state)
      \<and> version (cr_poll cr) = 1"
    by simp
  from version_counts_accepted_votes
    [where cfg = example_settings and c = alice_vote and ?s0.0 = pizza_state
       and ?s1.0 = voted_state] alice_vote_accepted
  have third: "\<exists>vr. vote_poll example_settings alice_vote pizza_state = (Inr vr, voted_state)
         \<and> version (vr_poll vr) = 2"
    by (simp add: alice_vote_def pizza_state_polls)
  let ?s1 = "snd (vote_poll example_settings alice_vote voted_state)"
  have dup: "vote_poll example_settings alice_vote voted_state = (Inl DuplicateVote, ?s1)"
  proof -
    have "fst (vote_poll example_settings alice_vote voted_state) = Inl DuplicateVote"
      by code_simp
    then show ?thesis by (simp add: prod_eq_iff)
  qed
  from version_counts_accepted_votes
    [where cfg = example_settings and c = alice_vote and ?s0.0 = voted_state
       and ?s1.0 = ?s1 and e = DuplicateVote] dup
  have fourth: "\<exists>s1. vote_poll example_settings alice_vote voted_state = (Inl DuplicateVote, s1)
         \<and> polls s1 = polls voted_state"
    by blast
  let ?xs = "[VotePoll alice_vote, VotePoll alice_vote]"
  let ?rs2 = "fst (exec example_settings ?xs pizza_state)"
  let ?s2 = "snd (exec example_settings ?xs pizza_state)"
  have rs2: "accepted_votes ''p1'' ?xs ?rs2 = 1"
  proof -
    have "map (\<lambda>r. case r of Voted v \<Rightarrow> True | _ \<Rightarrow> False) ?rs2 = [True, False]"
      by code_simp
    then show ?thesis
      by (cases ?rs2) (auto simp: alice_vote_def split: reply.splits)
  qed
  have p0: "polls pizza_state ''p1'' = Some (the (polls pizza_state ''p1''))"
    by (simp add: pizza_state_polls)
  from version_counts_accepted_votes
    [where cfg = example_settings and xs = ?xs and rs = ?rs2 and ?s0.0 = pizza_state
       and ?s1.0 = ?s2 and pid = "''p1''" and ?p0.0 = "the (polls pizza_state ''p1'')"]
    exec_pair [of example_settings ?xs pizza_state] p0 rs2
  have fifth: "\<exists>rs s1 p0 p1. exec example_settings ?xs pizza_state = (rs, s1)
         \<and> polls pizza_state ''p1'' = Some p0 \<and> polls s1 ''p1'' = Some p1
         \<and> version p1 = version p0 + 1"
    by (metis int_ops(2))
  from first second third fourth fifth show ?thesis by blast
qed

section \<open>The attempt log\<close>

lemma count_attempts_append:
  "count_attempts (as @ bs) pid fp ws = count_attempts as pid fp ws + count_attempts bs pid fp ws"
  by (simp add: count_attempts_def)

lemma count_attempts_new_attempt:
  "count_attempts [new_attempt cfg c] pid fp ws
     = (if vc_poll_id c = pid \<and> ip_digest cfg c = fp \<and> ws \<le> vc_now c then 1 else 0)"
  by (simp add: count_attempts_def new_attempt_def)

lemma vote_poll_validated_attempts:
  assumes "window_start cfg c = Inr ws"
    and "find_poll_with_option (polls s) (vc_poll_id c) (vc_option_id c) \<noteq> None"
  shows "vote_attempts (snd (vote_poll cfg c s)) = vote_attempts s @ [new_attempt cfg c]"
  using assms by (auto simp: vote_poll_validated logged_def accepted_state_def)

lemma vote_poll_validated_reply:
  assumes "window_start cfg c = Inr ws"
    and "find_poll_with_option (polls s) (vc_poll_id c) (vc_option_id c) \<noteq> None"
  shows "fst (vote_poll cfg c s) \<noteq> Inl OverflowError \<and> fst (vote_poll cfg c s) \<noteq> Inl NotFound
       \<and> fst (vote_poll cfg c s) \<noteq> Inl InvalidOption"
  using assms by (auto simp: vote_poll_validated split: if_splits)

lemma vote_poll_unvalidated:
  assumes "window_start cfg c = Inr ws"
    and "find_poll_with_option (polls s) (vc_poll_id c) (vc_option_id c) = None"
  shows "snd (vote_poll cfg c s) = s
       \<and> (fst (vote_poll cfg c s) = Inl NotFound \<or> fst (vote_poll cfg c s) = Inl InvalidOption)"
  using assms by (simp add: vote_poll_rejected_at_validation split: option.splits)

lemma vote_poll_rate_limited_iff:
  assumes "window_start cfg c = Inr ws"
    and "find_poll_with_option (polls s) (vc_poll_id c) (vc_option_id c) \<noteq> None"
  shows "fst (vote_poll cfg c s) = Inl RateLimited \<longleftrightarrow>
           RATE_LIMIT_MAX_ATTEMPTS cfg
             < count_attempts (vote_attempts s @ [new_attempt cfg c]) (vc_poll_id c)
                 (ip_digest cfg c) ws"
  using assms by (auto simp: vote_poll_validated split: if_splits)

lemma vote_poll_rate_limited_frame:
  assumes "fst (vote_poll cfg c s) = Inl RateLimited"
  shows "votes (snd (vote_poll cfg c s)) = votes s \<and> polls (snd (vote_poll cfg c s)) = polls s
       \<and> poll_events (snd (vote_poll cfg c s)) = poll_events s"
proof (cases "window_start cfg c")
  case (Inl e)
  then show ?thesis by (simp add: vote_poll_overflow)
next
  case (Inr ws)
  show ?thesis
  proof (cases "find_poll_with_option (polls s) (vc_poll_id c) (vc_option_id c)")
    case None
    with Inr show ?thesis by (simp add: vote_poll_unvalidated)
  next
    case (Some p)
    with assms Inr show ?thesis
      by (auto simp: vote_poll_validated logged_def split: if_splits)
  qed
qed

text \<open>Polls keep their option identifiers, so an option found once is found ever after.\<close>

lemma vote_poll_keeps_options:
  assumes "find_poll_with_option (polls s) pid oid \<noteq> None"
  shows "find_poll_with_option (polls (snd (vote_poll cfg c s))) pid oid \<noteq> None"
proof (cases "fst (vote_poll cfg c s)")
  case (Inl e)
  then have "polls (snd (vote_poll cfg c s)) = polls s"
    by (intro vote_poll_failed_polls [of cfg c s e]) (simp add: prod_eq_iff)
  with assms show ?thesis by simp
next
  case (Inr r)
  then have "vote_poll cfg c s = (Inr r, snd (vote_poll cfg c s))"
    by (simp add: prod_eq_iff)
  then obtain p where
    found: "find_poll_with_option (polls s) (vc_poll_id c) (vc_option_id c) = Some p"
    and s': "snd (vote_poll cfg c s) = accepted_state cfg c p s"
    by (rule vote_poll_accepted)
  from found have p: "polls s (vc_poll_id c) = Some p"
    by (simp add: find_poll_with_option_Some)
  from assms p show ?thesis
    by (auto simp: s' accepted_state_def find_poll_with_option_def inc_and_set_def
        inc_first_match_ids split: option.splits if_splits)
qed

lemma step_vote_reply:
  "fst (step cfg (VotePoll c) s)
     = (case fst (vote_poll cfg c s) of Inl e \<Rightarrow> Failed e | Inr r \<Rightarrow> Voted r)
   \<and> snd (step cfg (VotePoll c) s) = snd (vote_poll cfg c s)"
  by (simp add: step_def split: prod.splits sum.splits)

lemma step_attempts:
  assumes "step cfg x s = (r, s')"
  shows "count_attempts (vote_attempts s') pid fp ws
           = count_attempts (vote_attempts s) pid fp ws
               + int (count_past_validation cfg pid fp ws [x] [r])"
proof (cases x)
  case (CreatePoll cc)
  obtain res s1 where cp: "create_poll cc s = (res, s1)" by (cases "create_poll cc s")
  with assms CreatePoll have "s1 = s'" by (auto simp: step_def split: sum.splits)
  moreover from cp have "vote_attempts s1 = vote_attempts s"
    by (cases res) (auto dest: create_poll_failed create_poll_created)
  ultimately show ?thesis using CreatePoll by simp
next
  case (VotePoll c)
  from assms VotePoll step_vote_reply [of cfg c s]
  have r: "r = (case fst (vote_poll cfg c s) of Inl e \<Rightarrow> Failed e | Inr v \<Rightarrow> Voted v)"
    and s': "s' = snd (vote_poll cfg c s)"
    by simp_all
  show ?thesis
  proof (cases "window_start cfg c")
    case (Inl e)
    from vote_poll_overflow [OF Inl, of s] show ?thesis
      by (simp add: VotePoll r s')
  next
    case (Inr w)
    show ?thesis
    proof (cases "find_poll_with_option (polls s) (vc_poll_id c) (vc_option_id c) = None")
      case True
      from vote_poll_unvalidated [OF Inr True] show ?thesis
        by (auto simp: VotePoll r s')
    next
      case False
      from vote_poll_validated_attempts [OF Inr False] vote_poll_validated_reply [OF Inr False]
      show ?thesis
        by (auto simp: VotePoll r s' count_attempts_append count_attempts_new_attempt
            split: sum.splits)
    qed
  qed
qed

lemma exec_attempts:
  assumes "exec cfg xs s = (rs, s')"
  shows "count_attempts (vote_attempts s') pid fp ws
           = count_attempts (vote_attempts s) pid fp ws
               + int (count_past_validation cfg pid fp ws xs rs)"
  using assms
proof (induction xs arbitrary: s rs)
  case Nil
  then show ?case by simp
next
  case (Cons x xs)
  obtain r s1 where st: "step cfg x s = (r, s1)" by (cases "step cfg x s")
  obtain rs1 s2 where ex: "exec cfg xs s1 = (rs1, s2)" by (cases "exec cfg xs s1")
  from Cons.prems st ex have eq: "rs = r # rs1" and s2: "s2 = s'" by simp_all
  note ex = ex [unfolded s2]
  from step_attempts [OF st, of pid fp ws] Cons.IH [OF ex] show ?case
    by (simp add: eq)
qed

section \<open>Which requests are logged as attempts\<close>

text \<open>
  Claim C4, as the code has it. A vote request whose window start is a \<open>datetime\<close> and
  that passes option validation (the poll exists and has the option) appends exactly
  one attempt record, for its poll, fingerprint and time, whatever its outcome then
  is: \<open>RateLimited\<close>, \<open>DuplicateVote\<close> or accepted. A request turned away by option
  validation (\<open>NotFound\<close> or \<open>InvalidOption\<close>), or before it by the \<open>OverflowError\<close> of a
  window start that is not a \<open>datetime\<close>, appends none and leaves the state as it is.
  So when more than \<open>MAX_ATTEMPTS\<close> requests from one fingerprint to one poll within the
  window have passed the window computation and option validation, of whatever
  outcome, the next request that passes both is \<open>RateLimited\<close>.
\<close>

theorem attempt_logged_after_validation:
  "(\<forall>ws. window_start cfg c = Inr ws
          \<and> find_poll_with_option (polls s) (vc_poll_id c) (vc_option_id c) \<noteq> None
      \<longrightarrow> vote_attempts (snd (vote_poll cfg c s))
            = vote_attempts s @ [\<lparr>attempt_poll_id = vc_poll_id c,
                                   attempt_ip_hash = ip_digest cfg c,
                                   attempted_at = vc_now c\<rparr>])
   \<and> (\<forall>ws. window_start cfg c = Inr ws
          \<and> find_poll_with_option (polls s) (vc_poll_id c) (vc_option_id c) = None
      \<longrightarrow> snd (vote_poll cfg c s) = s
          \<and> (fst (vote_poll cfg c s) = Inl NotFound \<or> fst (vote_poll cfg c s) = Inl InvalidOption))
   \<and> (\<forall>e. window_start cfg c = Inl e \<longrightarrow> vote_poll cfg c s = (Inl OverflowError, s))
   \<and> (\<forall>ws. window_start cfg c = Inr ws \<and> exec cfg xs s0 = (rs, s)
          \<and> RATE_LIMIT_MAX_ATTEMPTS cfg
              < int (count_past_validation cfg (vc_poll_id c) (ip_digest cfg c) ws xs rs)
          \<and> find_poll_with_option (polls s) (vc_poll_id c) (vc_option_id c) \<noteq> None
      \<longrightarrow> fst (vote_poll cfg c s) = Inl RateLimited)"
proof -
  let ?found = "find_poll_with_option (polls s) (vc_poll_id c) (vc_option_id c)"
  have logs: "\<forall>ws. window_start cfg c = Inr ws \<and> ?found \<noteq> None
      \<longrightarrow> vote_attempts (snd (vote_poll cfg c s))
            = vote_attempts s @ [\<lparr>attempt_poll_id = vc_poll_id c,
                                   attempt_ip_hash = ip_digest cfg c,
                                   attempted_at = vc_now c\<rparr>]"
    using vote_poll_validated_attempts [of cfg c _ s] by (simp add: new_attempt_def)
  have skips: "\<forall>ws. window_start cfg c = Inr ws \<and> ?found = None
      \<longrightarrow> snd (vote_poll cfg c s) = s
          \<and> (fst (vote_poll cfg c s) = Inl NotFound \<or> fst (vote_poll cfg c s) = Inl InvalidOption)"
    using vote_poll_unvalidated [of cfg c _ s] by blast
  have overflow: "\<forall>e. window_start cfg c = Inl e \<longrightarrow> vote_poll cfg c s = (Inl OverflowError, s)"
    by (simp add: vote_poll_overflow)
  have limited: "\<forall>ws. window_start cfg c = Inr ws \<and> exec cfg xs s0 = (rs, s)
          \<and> RATE_LIMIT_MAX_ATTEMPTS cfg
              < int (count_past_validation cfg (vc_poll_id c) (ip_digest cfg c) ws xs rs)
          \<and> ?found \<noteq> None
      \<longrightarrow> fst (vote_poll cfg c s) = Inl RateLimited"
  proof (intro allI impI, elim conjE)
    fix ws
    assume ws: "window_start cfg c = Inr ws" and run: "exec cfg xs s0 = (rs, s)"
      and many: "RATE_LIMIT_MAX_ATTEMPTS cfg
            < int (count_past_validation cfg (vc_poll_id c) (ip_digest cfg c) ws xs rs)"
      and found: "?found \<noteq> None"
    let ?n = "count_attempts (vote_attempts s) (vc_poll_id c) (ip_digest cfg c) ws"
    have "0 \<le> count_attempts (vote_attempts s0) (vc_poll_id c) (ip_digest cfg c) ws"
      by (simp add: count_attempts_def)
    with exec_attempts [OF run, of "vc_poll_id c" "ip_digest cfg c" ws] many
    have "RATE_LIMIT_MAX_ATTEMPTS cfg < ?n"
      by linarith
    moreover have "0 \<le> count_attempts [new_attempt cfg c] (vc_poll_id c) (ip_digest cfg c) ws"
      by (simp add: count_attempts_def)
    ultimately have "RATE_LIMIT_MAX_ATTEMPTS cfg
        < count_attempts (vote_attempts s @ [new_attempt cfg c]) (vc_poll_id c)
            (ip_digest cfg c) ws"
      by (simp add: count_attempts_append)
    with vote_poll_rate_limited_iff [OF ws found] show "fst (vote_poll cfg c s) = Inl RateLimited"
      by simp
  qed
  from logs skips overflow limited show ?thesis by blast
qed

lemma strict_run_replies:
  "fst (exec strict_settings [VotePoll alice_vote, VotePoll alice_vote, VotePoll alice_vote]
          pizza_state)
     = [Voted \<lparr>vr_poll = \<lparr>poll_id = ''p1'', question = ''Pizza or Pasta?'', created_at = 0,
                 updated_at = 1000, version = 2, total_votes = 1,
                 options = [\<lparr>opt_id = ''oA'', opt_text = ''Pizza'', opt_votes = 1\<rparr>,
                            \<lparr>opt_id = ''oB'', opt_text = ''Pasta'', opt_votes = 0\<rparr>]\<rparr>,
               vr_cookie = ''alice''\<rparr>,
        Failed DuplicateVote, Failed RateLimited]"
  by code_simp

theorem attempt_logged_after_validation_witness:
  "window_start example_settings alice_vote = Inr (- 59000)
   \<and> find_poll_with_option (polls pizza_state) (vc_poll_id alice_vote) (vc_option_id alice_vote) \<noteq> None
   \<and> vote_attempts (snd (vote_poll example_settings alice_vote pizza_state))
       = [\<lparr>attempt_poll_id = ''p1'', attempt_ip_hash = ''change-me-in-production:10.0.0.1'',
           attempted_at = 1000\<rparr>]
   \<and> window_start example_settings foreign_vote = Inr (- 59000)
   \<and> find_poll_with_option (polls pizza_state) (vc_poll_id foreign_vote) (vc_option_id foreign_vote) = None
   \<and> snd (vote_poll example_settings foreign_vote pizza_state) = pizza_state
   \<and> window_start long_window_settings alice_vote = Inl OverflowError
   \<and> vote_poll long_window_settings alice_vote pizza_state = (Inl OverflowError, pizza_state)
   \<and> window_start strict_settings alice_vote = Inr (- 59000)
   \<and> count_past_validation strict_settings ''p1'' (ip_digest strict_settings alice_vote)
         (- 59000) [VotePoll alice_vote, VotePoll alice_vote, VotePoll alice_vote]
         (fst (exec strict_settings [VotePoll alice_vote, VotePoll alice_vote, VotePoll alice_vote]
                 pizza_state)) = 3
   \<and> fst (vote_poll strict_settings alice_vote
            (snd (exec strict_settings [VotePoll alice_vote, VotePoll alice_vote, VotePoll alice_vote]
                    pizza_state))) = Inl RateLimited"
proof -
  let ?xs = "[VotePoll alice_vote, VotePoll alice_vote, VotePoll alice_vote]"
  let ?rs = "fst (exec strict_settings ?xs pizza_state)"
  let ?s = "snd (exec strict_settings ?xs pizza_state)"
  have w2: "window_start example_settings foreign_vote = Inr (- 59000)"
    and w3: "window_start strict_settings alice_vote = Inr (- 59000)"
    by code_simp+
  have found: "find_poll_with_option (polls pizza_state) (vc_poll_id alice_vote)
      (vc_option_id alice_vote) \<noteq> None"
    by (simp add: pizza_state_polls find_poll_with_option_def alice_vote_def)
  have missing: "find_poll_with_option (polls pizza_state) (vc_poll_id foreign_vote)
      (vc_option_id foreign_vote) = None"
    by (simp add: pizza_state_polls find_poll_with_option_def alice_vote_def foreign_vote_def)
  have digest: "ip_digest example_settings alice_vote = ''change-me-in-production:10.0.0.1''"
    by code_simp
  from attempt_logged_after_validation
    [where s = pizza_state and c = alice_vote and cfg = example_settings] example_window found
  have "vote_attempts (snd (vote_poll example_settings alice_vote pizza_state))
       = vote_attempts pizza_state @ [\<lparr>attempt_poll_id = vc_poll_id alice_vote,
           attempt_ip_hash = ip_digest example_settings alice_vote,
           attempted_at = vc_now alice_vote\<rparr>]"
    by blast
  then have logged: "vote_attempts (snd (vote_poll example_settings alice_vote pizza_state))
       = [\<lparr>attempt_poll_id = ''p1'', attempt_ip_hash = ''change-me-in-production:10.0.0.1'',
           attempted_at = 1000\<rparr>]"
    using pizza_state_ledger
    by (simp add: digest) (simp add: alice_vote_def)
  from attempt_logged_after_validation
    [where s = pizza_state and c = foreign_vote and cfg = example_settings] w2 missing
  have skipped: "snd (vote_poll example_settings foreign_vote pizza_state) = pizza_state"
    by blast
  from attempt_logged_after_validation
    [where s = pizza_state and c = alice_vote and cfg = long_window_settings] long_window_overflow
  have refused: "vote_poll long_window_settings alice_vote pizza_state
      = (Inl OverflowError, pizza_state)"
    by blast
  have three: "count_past_validation strict_settings ''p1'' (ip_digest strict_settings alice_vote)
         (- 59000) ?xs ?rs = 3"
    unfolding strict_run_replies by code_simp
  have found_later: "find_poll_with_option (polls ?s) (vc_poll_id alice_vote)
      (vc_option_id alice_vote) \<noteq> None"
    by code_simp
  have many: "RATE_LIMIT_MAX_ATTEMPTS strict_settings
      < int (count_past_validation strict_settings (vc_poll_id alice_vote)
               (ip_digest strict_settings alice_vote) (- 59000) ?xs ?rs)"
    using three
    by (simp add: alice_vote_def strict_settings_def example_settings_def default_settings_def)
  from attempt_logged_after_validation
    [where s = ?s and c = alice_vote and cfg = strict_settings and xs = ?xs and rs = ?rs
       and ?s0.0 = pizza_state]
    w3 exec_pair [of strict_settings ?xs pizza_state] many found_later
  have limited: "fst (vote_poll strict_settings alice_vote ?s) = Inl RateLimited"
    by blast
  from example_window found logged w2 missing skipped long_window_overflow refused w3 three
    limited
  show ?thesis by blast
qed

text \<open>
  Claim C4, as written, fails: a request that ends in \<open>InvalidOption\<close> appends no attempt
  record, and after three such requests from one fingerprint to one poll within the
  window, with a limit of two, the next request is accepted, not \<open>RateLimited\<close>. Nor
  does a request for an option of the poll append one when the configured window is
  70000000000 seconds: it fails with the \<open>OverflowError\<close> before the log is written.
\<close>

theorem invalid_option_not_logged:
  "fst (vote_poll strict_settings foreign_vote pizza_state) = Inl InvalidOption
   \<and> vote_attempts pizza_state = []
   \<and> vote_attempts (snd (vote_poll strict_settings foreign_vote pizza_state)) = []
   \<and> map (\<lambda>r. case r of Failed e \<Rightarrow> Some e | Created cr \<Rightarrow> None | Voted vr \<Rightarrow> None)
        (fst (exec strict_settings
                [VotePoll foreign_vote, VotePoll foreign_vote, VotePoll foreign_vote,
                 VotePoll alice_vote] pizza_state))
       = [Some InvalidOption, Some InvalidOption, Some InvalidOption, None]
   \<and> (case fst (exec strict_settings
                [VotePoll foreign_vote, VotePoll foreign_vote, VotePoll foreign_vote,
                 VotePoll alice_vote] pizza_state) ! 3 of
         Voted vr \<Rightarrow> True | Created cr \<Rightarrow> False | Failed e \<Rightarrow> False)
   \<and> vote_attempts
        (snd (exec strict_settings
                [VotePoll foreign_vote, VotePoll foreign_vote, VotePoll foreign_vote]
                pizza_state)) = []
   \<and> find_poll_with_option (polls pizza_state) ''p1'' ''oA'' \<noteq> None
   \<and> fst (vote_poll long_window_settings alice_vote pizza_state) = Inl OverflowError
   \<and> vote_attempts (snd (vote_poll long_window_settings alice_vote pizza_state)) = []"
proof -
  have a: "fst (vote_poll strict_settings foreign_vote pizza_state) = Inl InvalidOption"
    by code_simp
  have b: "vote_attempts pizza_state = []"
    by (simp add: pizza_state_ledger)
  have c: "vote_attempts (snd (vote_poll strict_settings foreign_vote pizza_state)) = []"
    by code_simp
  have d: "map (\<lambda>r. case r of Failed e \<Rightarrow> Some e | Created cr \<Rightarrow> None | Voted vr \<Rightarrow> None)
        (fst (exec strict_settings
                [VotePoll foreign_vote, VotePoll foreign_vote, VotePoll foreign_vote,
                 VotePoll alice_vote] pizza_state))
       = [Some InvalidOption, Some InvalidOption, Some InvalidOption, None]"
    by code_simp
  have d': "case fst (exec strict_settings
                [VotePoll foreign_vote, VotePoll foreign_vote, VotePoll foreign_vote,
                 VotePoll alice_vote] pizza_state) ! 3 of
         Voted vr \<Rightarrow> True | Created cr \<Rightarrow> False | Failed e \<Rightarrow> False"
    by code_simp
  have e: "vote_attempts
        (snd (exec strict_settings
                [VotePoll foreign_vote, VotePoll foreign_vote, VotePoll foreign_vote]
                pizza_state)) = []"
    by code_simp
  have f: "find_poll_with_option (polls pizza_state) ''p1'' ''oA'' \<noteq> None"
    by (simp add: pizza_state_polls find_poll_with_option_def)
  have g: "fst (vote_poll long_window_settings alice_vote pizza_state) = Inl OverflowError"
    by code_simp
  have h: "vote_attempts (snd (vote_poll long_window_settings alice_vote pizza_state)) = []"
    by code_simp
  from a b c d d' e f g h show ?thesis by blast
qed

section \<open>The rate gate\<close>

text \<open>Past the window computation and option validation, three outcomes remain.\<close>

lemma vote_poll_validated_outcomes:
  assumes "window_start cfg c = Inr ws"
    and "find_poll_with_option (polls s) (vc_poll_id c) (vc_option_id c) \<noteq> None"
  shows "fst (vote_poll cfg c s) = Inl RateLimited \<or> fst (vote_poll cfg c s) = Inl DuplicateVote
       \<or> (\<exists>vr. fst (vote_poll cfg c s) = Inr vr)"
  using assms by (auto simp: vote_poll_validated split: if_splits)

lemma exec_rate_gate:
  assumes "\<forall>c \<in> set cs. vc_poll_id c = pid \<and> ip_digest cfg c = fp
             \<and> window_start cfg c = Inr (vc_now c - 1000 * RATE_LIMIT_WINDOW_SECONDS cfg)
             \<and> find_poll_with_option (polls s) pid (vc_option_id c) \<noteq> None
             \<and> count_attempts (vote_attempts s) pid fp
                  (vc_now c - 1000 * RATE_LIMIT_WINDOW_SECONDS cfg) = n0"
    and "\<forall>c \<in> set cs. \<forall>c' \<in> set cs.
           vc_now c' - 1000 * RATE_LIMIT_WINDOW_SECONDS cfg \<le> vc_now c"
    and "exec cfg (map VotePoll cs) s = (rs, s')"
  shows "length rs = length cs
       \<and> (\<forall>i < length cs.
            (rs ! i = Failed RateLimited \<longleftrightarrow> RATE_LIMIT_MAX_ATTEMPTS cfg < n0 + int i + 1)
            \<and> (rs ! i = Failed RateLimited \<or> rs ! i = Failed DuplicateVote
                \<or> (\<exists>vr. rs ! i = Voted vr)))"
  using assms
proof (induction cs arbitrary: s rs n0)
  case Nil
  then show ?case by simp
next
  case (Cons c cs)
  let ?w = "\<lambda>c. vc_now c - 1000 * RATE_LIMIT_WINDOW_SECONDS cfg"
  let ?s1 = "snd (vote_poll cfg c s)"
  obtain rs1 s2 where ex: "exec cfg (map VotePoll cs) ?s1 = (rs1, s2)"
    by (cases "exec cfg (map VotePoll cs) ?s1")
  from Cons.prems(1) have pid: "vc_poll_id c = pid" and fp: "ip_digest cfg c = fp"
    and ws: "window_start cfg c = Inr (?w c)"
    and found: "find_poll_with_option (polls s) (vc_poll_id c) (vc_option_id c) \<noteq> None"
    and n0: "count_attempts (vote_attempts s) pid fp (?w c) = n0"
    by simp_all
  from Cons.prems(2) have inside: "?w c \<le> vc_now c" by simp
  from Cons.prems(3) ex step_vote_reply [of cfg c s]
  have rs: "rs = (case fst (vote_poll cfg c s) of Inl e \<Rightarrow> Failed e | Inr r \<Rightarrow> Voted r) # rs1"
    and s2: "s2 = s'"
    by (simp_all add: prod_eq_iff split: prod.splits)
  note ex = ex [unfolded s2]
  have head: "rs ! 0 = Failed RateLimited \<longleftrightarrow> RATE_LIMIT_MAX_ATTEMPTS cfg < n0 + 1"
    using vote_poll_rate_limited_iff [OF ws found] pid fp n0 inside
    by (auto simp: rs count_attempts_append count_attempts_new_attempt split: sum.splits)
  have head': "rs ! 0 = Failed RateLimited \<or> rs ! 0 = Failed DuplicateVote
      \<or> (\<exists>vr. rs ! 0 = Voted vr)"
    using vote_poll_validated_outcomes [OF ws found] by (auto simp: rs)
  have log: "vote_attempts ?s1 = vote_attempts s @ [new_attempt cfg c]"
    using ws found by (rule vote_poll_validated_attempts)
  have rest: "\<forall>c' \<in> set cs. vc_poll_id c' = pid \<and> ip_digest cfg c' = fp
             \<and> window_start cfg c' = Inr (?w c')
             \<and> find_poll_with_option (polls ?s1) pid (vc_option_id c') \<noteq> None
             \<and> count_attempts (vote_attempts ?s1) pid fp (?w c') = n0 + 1"
  proof
    fix c' assume c': "c' \<in> set cs"
    with Cons.prems(1) have a: "vc_poll_id c' = pid" "ip_digest cfg c' = fp"
      "window_start cfg c' = Inr (?w c')"
      "find_poll_with_option (polls s) pid (vc_option_id c') \<noteq> None"
      "count_attempts (vote_attempts s) pid fp (?w c') = n0"
      by simp_all
    from c' Cons.prems(2) have "?w c' \<le> vc_now c" by simp
    with a(5) pid fp
    have "count_attempts (vote_attempts ?s1) pid fp (?w c') = n0 + 1"
      by (simp add: log count_attempts_append count_attempts_new_attempt)
    with a vote_poll_keeps_options [OF a(4), of cfg c]
    show "vc_poll_id c' = pid \<and> ip_digest cfg c' = fp
             \<and> window_start cfg c' = Inr (?w c')
             \<and> find_poll_with_option (polls ?s1) pid (vc_option_id c') \<noteq> None
             \<and> count_attempts (vote_attempts ?s1) pid fp (?w c') = n0 + 1"
      by simp
  qed
  from Cons.prems(2) have pairwise: "\<forall>c \<in> set cs. \<forall>c' \<in> set cs. ?w c' \<le> vc_now c"
    by simp
  note ih = Cons.IH [OF rest pairwise ex]
  from ih have len: "length rs1 = length cs"
    by (rule conjunct1)
  from ih have tail: "\<forall>i < length cs.
                 (rs1 ! i = Failed RateLimited
                    \<longleftrightarrow> RATE_LIMIT_MAX_ATTEMPTS cfg < n0 + 1 + int i + 1)
                 \<and> (rs1 ! i = Failed RateLimited \<or> rs1 ! i = Failed DuplicateVote
                     \<or> (\<exists>vr. rs1 ! i = Voted vr))"
    by (rule conjunct2)
  have "(rs ! i = Failed RateLimited \<longleftrightarrow> RATE_LIMIT_MAX_ATTEMPTS cfg < n0 + int i + 1)
      \<and> (rs ! i = Failed RateLimited \<or> rs ! i = Failed DuplicateVote
          \<or> (\<exists>vr. rs ! i = Voted vr))"
    if "i < length (c # cs)" for i
  proof (cases i)
    case 0
    with head head' show ?thesis by simp
  next
    case (Suc j)
    with that have j: "j < length cs" by simp
    from tail j have "(rs1 ! j = Failed RateLimited
                    \<longleftrightarrow> RATE_LIMIT_MAX_ATTEMPTS cfg < n0 + 1 + int j + 1)
                 \<and> (rs1 ! j = Failed RateLimited \<or> rs1 ! j = Failed DuplicateVote
                     \<or> (\<exists>vr. rs1 ! j = Voted vr))"
      by blast
    moreover have "rs ! i = rs1 ! j" by (simp add: rs Suc)
    moreover have "n0 + 1 + int j + 1 = n0 + int i + 1" by (simp add: Suc)
    ultimately show ?thesis by auto
  qed
  then have "\<forall>i < length (c # cs).
       (rs ! i = Failed RateLimited \<longleftrightarrow> RATE_LIMIT_MAX_ATTEMPTS cfg < n0 + int i + 1)
       \<and> (rs ! i = Failed RateLimited \<or> rs ! i = Failed DuplicateVote
           \<or> (\<exists>vr. rs ! i = Voted vr))"
    by blast
  moreover from len have "length rs = length (c # cs)" by (simp add: rs)
  ultimately show ?case by blast
qed

subsection \<open>The gate and the burst of scenario C\<close>

text \<open>
  Claim C3, as the code has it. For a request whose window start (its time less the
  window) is a \<open>datetime\<close> and that has passed option validation, the rate check first
  appends the request's own attempt and then counts the attempt records of the same
  poll and fingerprint whose time is at least the window start; the request is
  \<open>RateLimited\<close> (429) exactly when that count exceeds \<open>MAX_ATTEMPTS\<close>. The defaults are
  60 seconds and 15, and with the default window every request made a minute or more
  after the first \<open>datetime\<close> has a window start. A \<open>RateLimited\<close> request records no
  vote and changes no poll. Hence, of \<open>MAX_ATTEMPTS + 1\<close> requests (16 with the default
  15) from one fingerprint for options of one poll, all inside one window and each
  with a window start, on a log with no earlier attempt of that fingerprint on that
  poll inside the window, all but the last pass the rate gate (they are accepted or
  \<open>DuplicateVote\<close>) and the last is \<open>RateLimited\<close>.
\<close>

theorem rate_limit_counts_window_attempts:
  "(\<forall>ws. window_start cfg c = Inr ws
          \<and> find_poll_with_option (polls s) (vc_poll_id c) (vc_option_id c) \<noteq> None
      \<longrightarrow> ws = vc_now c - 1000 * RATE_LIMIT_WINDOW_SECONDS cfg
          \<and> (fst (vote_poll cfg c s) = Inl RateLimited
              \<longleftrightarrow> RATE_LIMIT_MAX_ATTEMPTS cfg
                    < int (length (filter
                        (\<lambda>a. attempt_poll_id a = vc_poll_id c \<and> attempt_ip_hash a = ip_digest cfg c
                              \<and> ws \<le> attempted_at a)
                        (vote_attempts s @ [\<lparr>attempt_poll_id = vc_poll_id c,
                                              attempt_ip_hash = ip_digest cfg c,
                                              attempted_at = vc_now c\<rparr>])))))
   \<and> RATE_LIMIT_WINDOW_SECONDS (default_settings H) = 60
   \<and> RATE_LIMIT_MAX_ATTEMPTS (default_settings H) = 15
   \<and> (datetime_min + 60000 \<le> vc_now c \<and> vc_now c \<le> datetime_max
      \<longrightarrow> window_start (default_settings H) c = Inr (vc_now c - 60000))
   \<and> status_code RateLimited = 429
   \<and> (fst (vote_poll cfg c s) = Inl RateLimited
      \<longrightarrow> votes (snd (vote_poll cfg c s)) = votes s \<and> polls (snd (vote_poll cfg c s)) = polls s)
   \<and> (RATE_LIMIT_MAX_ATTEMPTS cfg = int m \<and> length cs = Suc m
        \<and> (\<forall>c \<in> set cs. vc_poll_id c = pid \<and> ip_digest cfg c = fp
               \<and> window_start cfg c = Inr (vc_now c - 1000 * RATE_LIMIT_WINDOW_SECONDS cfg)
               \<and> find_poll_with_option (polls s0) pid (vc_option_id c) \<noteq> None
               \<and> count_attempts (vote_attempts s0) pid fp
                    (vc_now c - 1000 * RATE_LIMIT_WINDOW_SECONDS cfg) = 0)
        \<and> (\<forall>c \<in> set cs. \<forall>c' \<in> set cs.
               vc_now c' - 1000 * RATE_LIMIT_WINDOW_SECONDS cfg \<le> vc_now c)
        \<and> exec cfg (map VotePoll cs) s0 = (rs, s1)
      \<longrightarrow> length rs = Suc m
          \<and> (\<forall>i < m. rs ! i = Failed DuplicateVote \<or> (\<exists>vr. rs ! i = Voted vr))
          \<and> rs ! m = Failed RateLimited)"
proof -
  have gate: "\<forall>ws. window_start cfg c = Inr ws
          \<and> find_poll_with_option (polls s) (vc_poll_id c) (vc_option_id c) \<noteq> None
      \<longrightarrow> ws = vc_now c - 1000 * RATE_LIMIT_WINDOW_SECONDS cfg
          \<and> (fst (vote_poll cfg c s) = Inl RateLimited
              \<longleftrightarrow> RATE_LIMIT_MAX_ATTEMPTS cfg
                    < int (length (filter
                        (\<lambda>a. attempt_poll_id a = vc_poll_id c \<and> attempt_ip_hash a = ip_digest cfg c
                              \<and> ws \<le> attempted_at a)
                        (vote_attempts s @ [\<lparr>attempt_poll_id = vc_poll_id c,
                                              attempt_ip_hash = ip_digest cfg c,
                                              attempted_at = vc_now c\<rparr>]))))"
  proof (intro allI impI, elim conjE)
    fix ws
    assume ws: "window_start cfg c = Inr ws"
      and found: "find_poll_with_option (polls s) (vc_poll_id c) (vc_option_id c) \<noteq> None"
    from vote_poll_rate_limited_iff [OF ws found] window_start_Inr [OF ws]
    show "ws = vc_now c - 1000 * RATE_LIMIT_WINDOW_SECONDS cfg
          \<and> (fst (vote_poll cfg c s) = Inl RateLimited
              \<longleftrightarrow> RATE_LIMIT_MAX_ATTEMPTS cfg
                    < int (length (filter
                        (\<lambda>a. attempt_poll_id a = vc_poll_id c \<and> attempt_ip_hash a = ip_digest cfg c
                              \<and> ws \<le> attempted_at a)
                        (vote_attempts s @ [\<lparr>attempt_poll_id = vc_poll_id c,
                                              attempt_ip_hash = ip_digest cfg c,
                                              attempted_at = vc_now c\<rparr>]))))"
      by (simp add: count_attempts_def new_attempt_def)
  qed
  have defaults: "RATE_LIMIT_WINDOW_SECONDS (default_settings H) = 60
      \<and> RATE_LIMIT_MAX_ATTEMPTS (default_settings H) = 15"
    by (simp add: default_settings_def)
  have representable: "datetime_min + 60000 \<le> vc_now c \<and> vc_now c \<le> datetime_max
      \<longrightarrow> window_start (default_settings H) c = Inr (vc_now c - 60000)"
    using window_start_in_range [where cfg = "default_settings H" and c = c]
    by (simp add: default_settings_def datetime_min_def datetime_max_def)
  have code: "status_code RateLimited = 429" by simp
  have no_vote: "fst (vote_poll cfg c s) = Inl RateLimited
      \<longrightarrow> votes (snd (vote_poll cfg c s)) = votes s \<and> polls (snd (vote_poll cfg c s)) = polls s"
    using vote_poll_rate_limited_frame [of cfg c s] by blast
  have burst: "RATE_LIMIT_MAX_ATTEMPTS cfg = int m \<and> length cs = Suc m
        \<and> (\<forall>c \<in> set cs. vc_poll_id c = pid \<and> ip_digest cfg c = fp
               \<and> window_start cfg c = Inr (vc_now c - 1000 * RATE_LIMIT_WINDOW_SECONDS cfg)
               \<and> find_poll_with_option (polls s0) pid (vc_option_id c) \<noteq> None
               \<and> count_attempts (vote_attempts s0) pid fp
                    (vc_now c - 1000 * RATE_LIMIT_WINDOW_SECONDS cfg) = 0)
        \<and> (\<forall>c \<in> set cs. \<forall>c' \<in> set cs.
               vc_now c' - 1000 * RATE_LIMIT_WINDOW_SECONDS cfg \<le> vc_now c)
        \<and> exec cfg (map VotePoll cs) s0 = (rs, s1)
      \<longrightarrow> length rs = Suc m
          \<and> (\<forall>i < m. rs ! i = Failed DuplicateVote \<or> (\<exists>vr. rs ! i = Voted vr))
          \<and> rs ! m = Failed RateLimited"
  proof (intro impI, elim conjE)
    assume max: "RATE_LIMIT_MAX_ATTEMPTS cfg = int m" and len: "length cs = Suc m"
      and each: "\<forall>c \<in> set cs. vc_poll_id c = pid \<and> ip_digest cfg c = fp
               \<and> window_start cfg c = Inr (vc_now c - 1000 * RATE_LIMIT_WINDOW_SECONDS cfg)
               \<and> find_poll_with_option (polls s0) pid (vc_option_id c) \<noteq> None
               \<and> count_attempts (vote_attempts s0) pid fp
                    (vc_now c - 1000 * RATE_LIMIT_WINDOW_SECONDS cfg) = 0"
      and window: "\<forall>c \<in> set cs. \<forall>c' \<in> set cs.
               vc_now c' - 1000 * RATE_LIMIT_WINDOW_SECONDS cfg \<le> vc_now c"
      and run: "exec cfg (map VotePoll cs) s0 = (rs, s1)"
    note all = exec_rate_gate [OF each window run]
    from all have l: "length rs = length cs"
      by (rule conjunct1)
    from all have g: "\<forall>i < length cs.
                (rs ! i = Failed RateLimited \<longleftrightarrow> RATE_LIMIT_MAX_ATTEMPTS cfg < 0 + int i + 1)
                \<and> (rs ! i = Failed RateLimited \<or> rs ! i = Failed DuplicateVote
                    \<or> (\<exists>vr. rs ! i = Voted vr))"
      by (rule conjunct2)
    have passed: "rs ! i = Failed DuplicateVote \<or> (\<exists>vr. rs ! i = Voted vr)" if "i < m" for i
    proof -
      from that len have i: "i < length cs" by simp
      from g i max that have "rs ! i \<noteq> Failed RateLimited" by auto
      with g i show ?thesis by blast
    qed
    from g max len have last: "rs ! m = Failed RateLimited"
      by auto
    from l len passed last
    show "length rs = Suc m
          \<and> (\<forall>i < m. rs ! i = Failed DuplicateVote \<or> (\<exists>vr. rs ! i = Voted vr))
          \<and> rs ! m = Failed RateLimited"
      by simp
  qed
  from gate defaults representable code no_vote burst show ?thesis by blast
qed

lemma burst_requests:
  "\<forall>c \<in> set burst. vc_poll_id c = ''p1''
      \<and> ip_digest example_settings c = ''change-me-in-production:203.0.113.7''
      \<and> window_start example_settings c
          = Inr (vc_now c - 1000 * RATE_LIMIT_WINDOW_SECONDS example_settings)
      \<and> find_poll_with_option (polls pizza_state) ''p1'' (vc_option_id c) \<noteq> None
      \<and> count_attempts (vote_attempts pizza_state) ''p1'' ''change-me-in-production:203.0.113.7''
           (vc_now c - 1000 * RATE_LIMIT_WINDOW_SECONDS example_settings) = 0"
  by code_simp

lemma burst_window:
  "\<forall>c \<in> set burst. \<forall>c' \<in> set burst.
      vc_now c' - 1000 * RATE_LIMIT_WINDOW_SECONDS example_settings \<le> vc_now c"
  by code_simp

lemma burst_length: "length burst = Suc 15"
  by (simp add: burst_def)

theorem rate_limit_counts_window_attempts_witness:
  "RATE_LIMIT_MAX_ATTEMPTS example_settings = 15 \<and> length burst = 16
   \<and> list_all (\<lambda>c. vc_poll_id c = ''p1''
        \<and> ip_digest example_settings c = ''change-me-in-production:203.0.113.7''
        \<and> window_start example_settings c
            = Inr (vc_now c - 1000 * RATE_LIMIT_WINDOW_SECONDS example_settings)
        \<and> find_poll_with_option (polls pizza_state) ''p1'' (vc_option_id c) \<noteq> None
        \<and> count_attempts (vote_attempts pizza_state) ''p1'' ''change-me-in-production:203.0.113.7''
             (vc_now c - 1000 * RATE_LIMIT_WINDOW_SECONDS example_settings) = 0) burst
   \<and> list_all (\<lambda>c. list_all (\<lambda>c'.
        vc_now c' - 1000 * RATE_LIMIT_WINDOW_SECONDS example_settings \<le> vc_now c) burst) burst
   \<and> length (fst (exec example_settings (map VotePoll burst) pizza_state)) = 16
   \<and> list_all (\<lambda>r. r = Failed DuplicateVote \<or> (\<exists>vr. r = Voted vr))
        (take 15 (fst (exec example_settings (map VotePoll burst) pizza_state)))
   \<and> fst (exec example_settings (map VotePoll burst) pizza_state) ! 15 = Failed RateLimited
   \<and> window_start example_settings alice_vote = Inr (- 59000)
   \<and> find_poll_with_option (polls pizza_state) (vc_poll_id alice_vote) (vc_option_id alice_vote) \<noteq> None
   \<and> fst (vote_poll example_settings alice_vote pizza_state) \<noteq> Inl RateLimited
   \<and> fst (vote_poll (example_settings\<lparr>RATE_LIMIT_MAX_ATTEMPTS := 1\<rparr>) alice_vote voted_state)
       = Inl RateLimited
   \<and> votes (snd (vote_poll (example_settings\<lparr>RATE_LIMIT_MAX_ATTEMPTS := 1\<rparr>) alice_vote
                    voted_state)) = votes voted_state
   \<and> window_start (default_settings (\<lambda>b. b)) alice_vote = Inr (- 59000)"
proof -
  let ?rs = "fst (exec example_settings (map VotePoll burst) pizza_state)"
  let ?s1 = "snd (exec example_settings (map VotePoll burst) pizza_state)"
  let ?one = "example_settings\<lparr>RATE_LIMIT_MAX_ATTEMPTS := 1\<rparr>"
  have max: "RATE_LIMIT_MAX_ATTEMPTS example_settings = int 15"
    by (simp add: example_settings_def default_settings_def)
  note run = exec_pair [of example_settings "map VotePoll burst" pizza_state]
  from rate_limit_counts_window_attempts
    [where cfg = example_settings and m = 15 and cs = burst and pid = "''p1''"
       and fp = "''change-me-in-production:203.0.113.7''" and ?s0.0 = pizza_state
       and rs = ?rs and ?s1.0 = ?s1]
    max burst_length burst_requests burst_window run
  have scenario: "length ?rs = Suc 15
      \<and> (\<forall>i < 15. ?rs ! i = Failed DuplicateVote \<or> (\<exists>vr. ?rs ! i = Voted vr))
      \<and> ?rs ! 15 = Failed RateLimited"
    by blast
  then have passed: "list_all (\<lambda>r. r = Failed DuplicateVote \<or> (\<exists>vr. r = Voted vr)) (take 15 ?rs)"
    by (simp add: list_all_length)
  have found: "find_poll_with_option (polls pizza_state) (vc_poll_id alice_vote)
      (vc_option_id alice_vote) \<noteq> None"
    by (simp add: pizza_state_polls find_poll_with_option_def alice_vote_def)
  have one: "\<not> RATE_LIMIT_MAX_ATTEMPTS example_settings
      < int (length (filter
          (\<lambda>a. attempt_poll_id a = vc_poll_id alice_vote
                \<and> attempt_ip_hash a = ip_digest example_settings alice_vote
                \<and> - 59000 \<le> attempted_at a)
          (vote_attempts pizza_state @ [\<lparr>attempt_poll_id = vc_poll_id alice_vote,
                                          attempt_ip_hash = ip_digest example_settings alice_vote,
                                          attempted_at = vc_now alice_vote\<rparr>])))"
    by (simp add: pizza_state_ledger example_settings_def default_settings_def)
  from rate_limit_counts_window_attempts
    [where cfg = example_settings and c = alice_vote and s = pizza_state] example_window found one
  have single: "fst (vote_poll example_settings alice_vote pizza_state) \<noteq> Inl RateLimited"
    by blast
  have w1: "window_start ?one alice_vote = Inr (- 59000)"
    by code_simp
  have found2: "find_poll_with_option (polls voted_state) (vc_poll_id alice_vote)
      (vc_option_id alice_vote) \<noteq> None"
    by (simp add: find_poll_with_option_def voted_state_poll alice_vote_def)
  have two: "RATE_LIMIT_MAX_ATTEMPTS ?one
      < int (length (filter
          (\<lambda>a. attempt_poll_id a = vc_poll_id alice_vote
                \<and> attempt_ip_hash a = ip_digest ?one alice_vote
                \<and> - 59000 \<le> attempted_at a)
          (vote_attempts voted_state @ [\<lparr>attempt_poll_id = vc_poll_id alice_vote,
                                          attempt_ip_hash = ip_digest ?one alice_vote,
                                          attempted_at = vc_now alice_vote\<rparr>])))"
    by code_simp
  note at_one = rate_limit_counts_window_attempts
    [where cfg = ?one and c = alice_vote and s = voted_state]
  from at_one w1 found2 two
  have limited: "fst (vote_poll ?one alice_vote voted_state) = Inl RateLimited"
    by blast
  with at_one
  have unrecorded: "votes (snd (vote_poll ?one alice_vote voted_state)) = votes voted_state"
    by blast
  have range: "datetime_min + 60000 \<le> vc_now alice_vote \<and> vc_now alice_vote \<le> datetime_max"
    by (simp add: datetime_min_def datetime_max_def alice_vote_def)
  from rate_limit_counts_window_attempts [where c = alice_vote and H = "\<lambda>b. b"] range
  have "window_start (default_settings (\<lambda>b. b)) alice_vote = Inr (vc_now alice_vote - 60000)"
    by blast
  then have dflt: "window_start (default_settings (\<lambda>b. b)) alice_vote = Inr (- 59000)"
    by (simp add: alice_vote_def)
  from max burst_length burst_requests burst_window scenario passed example_window found single
    limited unrecorded dflt
  show ?thesis
    by (simp add: list_all_iff)
qed

text \<open>
  Claim C3, as written, fails. Of sixteen requests from one fingerprint to one poll
  inside the window with the defaults, the first naming an option the poll lacks, the
  sixteenth is accepted, not \<open>RateLimited\<close>. Of the sixteen requests that follow an
  earlier one of the same fingerprint inside the window, the fifteenth is already
  \<open>RateLimited\<close>. And with a window of 70000000000 seconds and a limit of no attempt,
  a request for an option of the poll, whose count with its own attempt would be one,
  is answered with the \<open>OverflowError\<close>, not \<open>RateLimited\<close>.
\<close>

theorem burst_with_uncounted_request:
  "RATE_LIMIT_MAX_ATTEMPTS example_settings = 15
   \<and> RATE_LIMIT_WINDOW_SECONDS example_settings = 60
   \<and> length foreign_burst = 16
   \<and> list_all (\<lambda>c. vc_poll_id c = ''p1''
        \<and> ip_digest example_settings c = ''change-me-in-production:203.0.113.7''
        \<and> 1000 \<le> vc_now c \<and> vc_now c \<le> 2500) foreign_burst
   \<and> fst (exec example_settings (map VotePoll foreign_burst) pizza_state) ! 0
       = Failed InvalidOption
   \<and> (case fst (exec example_settings (map VotePoll foreign_burst) pizza_state) ! 15 of
         Voted vr \<Rightarrow> True | Created cr \<Rightarrow> False | Failed e \<Rightarrow> False)
   \<and> fst (exec example_settings (map VotePoll foreign_burst) pizza_state) ! 15
       \<noteq> Failed RateLimited
   \<and> length late_burst = 16
   \<and> list_all (\<lambda>c. vc_poll_id c = ''p1''
        \<and> ip_digest example_settings c = ''change-me-in-production:203.0.113.7''
        \<and> 1000 \<le> vc_now c \<and> vc_now c \<le> 2600) late_burst
   \<and> fst (exec example_settings (map VotePoll late_burst)
            (snd (vote_poll example_settings (burst_vote 0) pizza_state))) ! 14
       = Failed RateLimited
   \<and> RATE_LIMIT_MAX_ATTEMPTS long_window_no_attempt_settings = 0
   \<and> find_poll_with_option (polls pizza_state) ''p1'' ''oA'' \<noteq> None
   \<and> count_attempts (vote_attempts pizza_state @ [new_attempt long_window_no_attempt_settings alice_vote])
        ''p1'' (ip_digest long_window_no_attempt_settings alice_vote)
        (vc_now alice_vote - 1000 * RATE_LIMIT_WINDOW_SECONDS long_window_no_attempt_settings) = 1
   \<and> fst (vote_poll long_window_no_attempt_settings alice_vote pizza_state) = Inl OverflowError
   \<and> fst (vote_poll long_window_no_attempt_settings alice_vote pizza_state) \<noteq> Inl RateLimited"
proof -
  have a: "RATE_LIMIT_MAX_ATTEMPTS example_settings = 15
      \<and> RATE_LIMIT_WINDOW_SECONDS example_settings = 60"
    by (simp add: example_settings_def default_settings_def)
  have b: "length foreign_burst = 16" "length late_burst = 16"
    by (simp_all add: foreign_burst_def late_burst_def)
  have c: "list_all (\<lambda>c. vc_poll_id c = ''p1''
        \<and> ip_digest example_settings c = ''change-me-in-production:203.0.113.7''
        \<and> 1000 \<le> vc_now c \<and> vc_now c \<le> 2500) foreign_burst"
    by code_simp
  have d: "fst (exec example_settings (map VotePoll foreign_burst) pizza_state) ! 0
       = Failed InvalidOption"
    by code_simp
  have e: "case fst (exec example_settings (map VotePoll foreign_burst) pizza_state) ! 15 of
         Voted vr \<Rightarrow> True | Created cr \<Rightarrow> False | Failed e \<Rightarrow> False"
    by code_simp
  then have e': "fst (exec example_settings (map VotePoll foreign_burst) pizza_state) ! 15
       \<noteq> Failed RateLimited"
    by auto
  have f: "list_all (\<lambda>c. vc_poll_id c = ''p1''
        \<and> ip_digest example_settings c = ''change-me-in-production:203.0.113.7''
        \<and> 1000 \<le> vc_now c \<and> vc_now c \<le> 2600) late_burst"
    by code_simp
  have g: "fst (exec example_settings (map VotePoll late_burst)
            (snd (vote_poll example_settings (burst_vote 0) pizza_state))) ! 14
       = Failed RateLimited"
    by code_simp
  have h: "RATE_LIMIT_MAX_ATTEMPTS long_window_no_attempt_settings = 0"
    by (simp add: long_window_no_attempt_settings_def)
  have i: "find_poll_with_option (polls pizza_state) ''p1'' ''oA'' \<noteq> None"
    by (simp add: pizza_state_polls find_poll_with_option_def)
  have j: "count_attempts (vote_attempts pizza_state @ [new_attempt long_window_no_attempt_settings alice_vote])
        ''p1'' (ip_digest long_window_no_attempt_settings alice_vote)
        (vc_now alice_vote - 1000 * RATE_LIMIT_WINDOW_SECONDS long_window_no_attempt_settings) = 1"
    by code_simp
  have k: "fst (vote_poll long_window_no_attempt_settings alice_vote pizza_state) = Inl OverflowError"
    by code_simp
  from a b c d e e' f g h i j k show ?thesis by simp
qed

end
